theory Spec2Isabelle
  imports Complex_Main
begin

section \<open>Python text\<close>

text \<open>
  A Python \<^verbatim>\<open>str\<close> is a sequence of Unicode code points, and \<^verbatim>\<open>len\<close>, slicing and
  \<^verbatim>\<open>strip\<close> count code points.  A character is therefore modelled by its code point, a
  natural number, and a string by the list of its code points.  \<open>py\<close> turns an ASCII
  literal into such a string.
\<close>

type_synonym pychar = nat
type_synonym pystr = "pychar list"

definition py :: "string \<Rightarrow> pystr" where
  "py s = map of_char s"

text \<open>
  \<^verbatim>\<open>xs[i:j]\<close> for integers \<open>i\<close> and \<open>j\<close>, with Python's treatment of negative and
  out-of-range bounds: a negative bound counts from the end, and both bounds are clamped
  to \<open>0 .. len(xs)\<close>.
\<close>

definition py_slice :: "'a list \<Rightarrow> int \<Rightarrow> int \<Rightarrow> 'a list" where
  "py_slice xs i j =
     (let n = int (length xs);
          lo = (if i < 0 then max (i + n) 0 else min i n);
          hi = (if j < 0 then max (j + n) 0 else min j n)
      in drop (nat lo) (take (nat hi) xs))"

section \<open>The chunker\<close>

text \<open>
  \<^verbatim>\<open>
  def chunk_text(text, chunk_size=CHUNK_SIZE):
      chunks = []
      start = 0
      while start < len(text):
          end = start + chunk_size
          chunks.append(text[start:end])
          start = end
      return chunks
  \<close>
  The \<^verbatim>\<open>while\<close> loop is \<open>chunk_loop\<close>, whose arguments are the loop's variables.  Nothing
  in the source keeps \<^verbatim>\<open>chunk_size\<close> positive, and for a \<^verbatim>\<open>chunk_size\<close> of zero or less the
  loop never ends on a non-empty text; so the loop is a partial function, and not returning
  is the value \<open>None\<close>.
\<close>

definition CHUNK_SIZE :: int where
  "CHUNK_SIZE = 200000"

partial_function (option) chunk_loop ::
  "'a list \<Rightarrow> int \<Rightarrow> int \<Rightarrow> 'a list list \<Rightarrow> 'a list list option" where
  "chunk_loop text chunk_size start chunks =
     (if start < int (length text)
      then chunk_loop text chunk_size (start + chunk_size)
             (chunks @ [py_slice text start (start + chunk_size)])
      else Some chunks)"

definition chunk_text :: "'a list \<Rightarrow> int \<Rightarrow> 'a list list option" where
  "chunk_text text chunk_size = chunk_loop text chunk_size 0 []"

section \<open>String operations of the Python runtime\<close>

text \<open>
  \<^verbatim>\<open>str.strip()\<close> removes leading and trailing whitespace, and the pattern \<^verbatim>\<open>\s\<close> of a
  \<^verbatim>\<open>str\<close> pattern matches the same characters: the code points that CPython's
  \<^verbatim>\<open>Py_UNICODE_ISSPACE\<close> accepts.
\<close>

definition is_space :: "pychar \<Rightarrow> bool" where
  "is_space c =
     ((9 \<le> c \<and> c \<le> 13) \<or> (28 \<le> c \<and> c \<le> 32) \<or> c = 133 \<or> c = 160 \<or> c = 5760
      \<or> (8192 \<le> c \<and> c \<le> 8202) \<or> c = 8232 \<or> c = 8233 \<or> c = 8239 \<or> c = 8287
      \<or> c = 12288)"

definition py_strip :: "pystr \<Rightarrow> pystr" where
  "py_strip s = rev (dropWhile is_space (rev (dropWhile is_space s)))"

text \<open>\<^verbatim>\<open>sep.join(xs)\<close>\<close>

fun py_join :: "pystr \<Rightarrow> pystr list \<Rightarrow> pystr" where
  "py_join sep [] = []"
| "py_join sep [x] = x"
| "py_join sep (x # y # ys) = x @ sep @ py_join sep (y # ys)"

definition endswith :: "pystr \<Rightarrow> pystr \<Rightarrow> bool" where
  "endswith s suffix = (length suffix \<le> length s \<and> drop (length s - length suffix) s = suffix)"

definition startswith :: "pystr \<Rightarrow> pystr \<Rightarrow> bool" where
  "startswith s prefix = (take (length prefix) s = prefix)"

text \<open>\<^verbatim>\<open>str(n)\<close> for a length \<open>n\<close>: its decimal digits.\<close>

fun str_of_nat :: "nat \<Rightarrow> pystr" where
  "str_of_nat n = (if n < 10 then [48 + n] else str_of_nat (n div 10) @ [48 + n mod 10])"

definition nl :: pystr where
  "nl = [10]"

section \<open>Regular expressions\<close>

text \<open>
  The four patterns of \<^verbatim>\<open>extract_context\<close> use literals, character classes, greedy and
  lazy repetition of one character class, alternation, an optional group, capturing groups
  and the line anchor \<^verbatim>\<open>^\<close> under \<^verbatim>\<open>re.MULTILINE\<close>.  \<open>rmatch\<close> is the backtracking matcher
  of \<^verbatim>\<open>re\<close> for these constructs: for a pattern, a subject string and a start position it
  lists every way the pattern matches there, as the end position and the captured groups,
  in the order in which backtracking tries them.  The match \<^verbatim>\<open>re\<close> reports at a position is
  the first of the list.

  \<^verbatim>\<open>\w\<close> matches the underscore and every code point for which \<^verbatim>\<open>str.isalnum()\<close> holds.
  For ASCII that is letters and digits; for the rest it is a table of the Unicode
  database, which is the parameter \<open>alnum\<close>.
\<close>

datatype cclass = Space | Word | Dot | Chr pychar | Union cclass cclass

datatype regex =
    Lit pystr
  | One cclass
  | Rep cclass nat bool
  | Seq regex regex
  | Alt regex regex
  | Opt regex
  | Grp regex
  | Bol

definition is_word :: "(pychar \<Rightarrow> bool) \<Rightarrow> pychar \<Rightarrow> bool" where
  "is_word alnum c =
     (c = 95 \<or>
      (if c < 128 then (48 \<le> c \<and> c \<le> 57) \<or> (65 \<le> c \<and> c \<le> 90) \<or> (97 \<le> c \<and> c \<le> 122)
       else alnum c))"

fun in_class :: "(pychar \<Rightarrow> bool) \<Rightarrow> cclass \<Rightarrow> pychar \<Rightarrow> bool" where
  "in_class alnum Space c = is_space c"
| "in_class alnum Word c = is_word alnum c"
| "in_class alnum Dot c = (c \<noteq> 10)"
| "in_class alnum (Chr d) c = (c = d)"
| "in_class alnum (Union a b) c = (in_class alnum a c \<or> in_class alnum b c)"

text \<open>The substring \<^verbatim>\<open>s[i:j]\<close> for \<open>0 \<le> i \<le> j\<close>.\<close>

definition span :: "pystr \<Rightarrow> nat \<Rightarrow> nat \<Rightarrow> pystr" where
  "span s i j = take (j - i) (drop i s)"

fun rmatch :: "(pychar \<Rightarrow> bool) \<Rightarrow> regex \<Rightarrow> pystr \<Rightarrow> nat \<Rightarrow> (nat \<times> pystr list) list" where
  "rmatch alnum (Lit l) s i =
     (if take (length l) (drop i s) = l then [(i + length l, [])] else [])"
| "rmatch alnum (One c) s i =
     (if i < length s \<and> in_class alnum c (s ! i) then [(Suc i, [])] else [])"
| "rmatch alnum (Rep c m greedy) s i =
     (let n = length (takeWhile (in_class alnum c) (drop i s));
          ks = [m..<Suc n]
      in map (\<lambda>k. (i + k, [])) (if greedy then rev ks else ks))"
| "rmatch alnum (Seq r1 r2) s i =
     concat (map (\<lambda>(j, g1). map (\<lambda>(k, g2). (k, g1 @ g2)) (rmatch alnum r2 s j))
                 (rmatch alnum r1 s i))"
| "rmatch alnum (Alt r1 r2) s i = rmatch alnum r1 s i @ rmatch alnum r2 s i"
| "rmatch alnum (Opt r) s i = rmatch alnum r s i @ [(i, [])]"
| "rmatch alnum (Grp r) s i = map (\<lambda>(j, g). (j, span s i j # g)) (rmatch alnum r s i)"
| "rmatch alnum Bol s i = (if i = 0 \<or> s ! (i - 1) = 10 then [(i, [])] else [])"

text \<open>
  The scan of \<^verbatim>\<open>re.finditer\<close>: the leftmost match from \<open>pos\<close> on, then the next one from
  where it ended.  Each match is its start, its end and its groups.  (After an empty match
  the scan moves one position on; none of the four patterns can match the empty string.)
\<close>

function finditer ::
  "(pychar \<Rightarrow> bool) \<Rightarrow> regex \<Rightarrow> pystr \<Rightarrow> nat \<Rightarrow> (nat \<times> nat \<times> pystr list) list" where
  "finditer alnum r s pos =
     (if length s < pos then []
      else case rmatch alnum r s pos of
             [] \<Rightarrow> finditer alnum r s (Suc pos)
           | (j, g) # _ \<Rightarrow> (pos, j, g) # finditer alnum r s (max j (Suc pos)))"
  by pat_completeness auto
termination
  by (relation "measure (\<lambda>(alnum, r, s, pos). Suc (length s) - pos)") auto

declare finditer.simps [simp del]

text \<open>
  \<^verbatim>\<open>re.findall\<close> returns the whole match when the pattern has no group and the groups
  otherwise; \<^verbatim>\<open>re.search\<close> returns the first match, if any.
\<close>

definition findall_whole :: "(pychar \<Rightarrow> bool) \<Rightarrow> regex \<Rightarrow> pystr \<Rightarrow> pystr list" where
  "findall_whole alnum r s = map (\<lambda>(i, j, g). span s i j) (finditer alnum r s 0)"

definition findall_groups :: "(pychar \<Rightarrow> bool) \<Rightarrow> regex \<Rightarrow> pystr \<Rightarrow> pystr list list" where
  "findall_groups alnum r s = map (\<lambda>(i, j, g). g) (finditer alnum r s 0)"

definition search_groups :: "(pychar \<Rightarrow> bool) \<Rightarrow> regex \<Rightarrow> pystr \<Rightarrow> pystr list option" where
  "search_groups alnum r s =
     (case finditer alnum r s 0 of [] \<Rightarrow> None | (i, j, g) # _ \<Rightarrow> Some g)"

fun seqs :: "regex list \<Rightarrow> regex" where
  "seqs [] = Lit []"
| "seqs [r] = r"
| "seqs (r # rs) = Seq r (seqs rs)"

section \<open>The context extractor\<close>

text \<open>
  The patterns of \<^verbatim>\<open>extract_context\<close>:
  \<^verbatim>\<open>^\s*using\s+[\w\.]+;\<close>,
  \<^verbatim>\<open>(?:public|internal|private|protected)\s+(?:partial\s+)?(class|struct|record)\s+(\w+)\<close>,
  \<^verbatim>\<open>(?:public|internal|private|protected)\s+(?:override\s+)?(?:virtual\s+)?\w[\w<>]*\s+(\w+)\(.*?\)\<close>
  and \<^verbatim>\<open>^\s*namespace\s+([\w\.]+)\<close>.
\<close>

definition visibility :: regex where
  "visibility =
     Alt (Lit (py ''public'')) (Alt (Lit (py ''internal''))
       (Alt (Lit (py ''private'')) (Lit (py ''protected''))))"

definition using_re :: regex where
  "using_re =
     seqs [Bol, Rep Space 0 True, Lit (py ''using''), Rep Space 1 True,
           Rep (Union Word (Chr 46)) 1 True, Lit (py '';'')]"

definition class_re :: regex where
  "class_re =
     seqs [visibility, Rep Space 1 True,
           Opt (Seq (Lit (py ''partial'')) (Rep Space 1 True)),
           Grp (Alt (Lit (py ''class'')) (Alt (Lit (py ''struct'')) (Lit (py ''record'')))),
           Rep Space 1 True, Grp (Rep Word 1 True)]"

definition method_re :: regex where
  "method_re =
     seqs [visibility, Rep Space 1 True,
           Opt (Seq (Lit (py ''override'')) (Rep Space 1 True)),
           Opt (Seq (Lit (py ''virtual'')) (Rep Space 1 True)),
           One Word, Rep (Union Word (Union (Chr 60) (Chr 62))) 0 True,
           Rep Space 1 True, Grp (Rep Word 1 True),
           Lit (py ''(''), Rep Dot 0 False, Lit (py '')'')]"

definition namespace_re :: regex where
  "namespace_re =
     seqs [Bol, Rep Space 0 True, Lit (py ''namespace''), Rep Space 1 True,
           Grp (Rep (Union Word (Chr 46)) 1 True)]"

text \<open>
  \<^verbatim>\<open>
  def extract_context(csharp_code):
      using_statements = re.findall(r"^\s*using\s+[\w\.]+;", csharp_code, re.MULTILINE)
      class_names = re.findall(r"...", csharp_code)
      method_signatures = re.findall(r"...", csharp_code)
      namespace_match = re.search(r"^\s*namespace\s+([\w\.]+)", csharp_code, re.MULTILINE)
      context_parts = []
      if using_statements:
          context_parts.append("\n".join(using_statements))
      if namespace_match:
          context_parts.append(f"Namespace: {namespace_match.group(1)}")
      if class_names:
          classes_str = ", ".join([f"{c[0]} {c[1]}" for c in class_names])
          context_parts.append(f"Classes: {classes_str}")
      if method_signatures:
          method_signatures_str = ", ".join(method_signatures)
          context_parts.append(f"Methods: {method_signatures_str}")
      return "\n".join(context_parts).strip()
  \<close>
  The four \<^verbatim>\<open>append\<close>s build \<open>context_parts\<close> in this order.
\<close>

definition extract_context :: "(pychar \<Rightarrow> bool) \<Rightarrow> pystr \<Rightarrow> pystr" where
  "extract_context alnum csharp_code =
     (let using_statements = findall_whole alnum using_re csharp_code;
          class_names = findall_groups alnum class_re csharp_code;
          method_signatures = map (\<lambda>g. g ! 0) (findall_groups alnum method_re csharp_code);
          namespace_match = search_groups alnum namespace_re csharp_code;
          context_parts =
            (if using_statements \<noteq> [] then [py_join nl using_statements] else [])
            @ (case namespace_match of
                 None \<Rightarrow> []
               | Some g \<Rightarrow> [py ''Namespace: '' @ g ! 0])
            @ (if class_names \<noteq> []
               then [py ''Classes: ''
                       @ py_join (py '', '') (map (\<lambda>c. c ! 0 @ py '' '' @ c ! 1) class_names)]
               else [])
            @ (if method_signatures \<noteq> []
               then [py ''Methods: '' @ py_join (py '', '') method_signatures]
               else [])
      in py_strip (py_join nl context_parts))"

section \<open>The outside world\<close>

text \<open>
  The program talks to three collaborators: the logger, the file system and the remote
  completion endpoint.  What it does to them is recorded, in order, as a list of events.
  A call of \<^verbatim>\<open>extract_context\<close> is recorded too, with its argument, so that the trace
  tells how often the extractor ran.

  \<^item> \<open>files st path\<close> is what the file holds: its content as a sequence of code points,
    which UTF-8 puts in one-to-one correspondence with its bytes; \<open>None\<close> says that opening
    or decoding the file raises.
  \<^item> Both \<^verbatim>\<open>open\<close> calls of the program leave \<^verbatim>\<open>newline\<close> at its default, so the text layer
    translates line ends.  Reading (\<open>read_newlines\<close>) turns every \<^verbatim>\<open>\r\n\<close> and every other
    \<^verbatim>\<open>\r\<close> into \<^verbatim>\<open>\n\<close>; writing (\<open>write_newlines\<close>) turns every \<^verbatim>\<open>\n\<close> into \<^verbatim>\<open>os.linesep\<close>,
    which is \<open>linesep\<close> of the environment: \<^verbatim>\<open>\n\<close> on POSIX, \<^verbatim>\<open>\r\n\<close> on Windows.
  \<^item> Whether a write succeeds is the file system's decision, \<open>write_outcome\<close>:
    \<open>None\<close> when \<^verbatim>\<open>open(path, "w")\<close> and \<^verbatim>\<open>write\<close> succeed, and otherwise what the file holds
    after the exception.
  \<^item> The endpoint is a function of its own state \<open>'w\<close> and the request.  Its outcome is
    either the text \<^verbatim>\<open>response["choices"][0]["message"]["content"]\<close>, or an exception of
    class \<^verbatim>\<open>Exception\<close> raised inside the \<^verbatim>\<open>try\<close> block, given by its \<^verbatim>\<open>str\<close>.
  \<^item> \<open>walk\<close> is \<^verbatim>\<open>os.walk\<close>: the \<^verbatim>\<open>(root, dirs, files)\<close> triples of a directory tree.
\<close>

datatype level = INFO | WARNING | ERROR

record request =
  engine :: pystr
  messages :: "(pystr \<times> pystr) list"
  temperature :: real

datatype outcome = Content pystr | Raises pystr

datatype event =
    Log level pystr
  | Read pystr
  | Write pystr pystr
  | Call request
  | Submit pystr
  | Extract pystr

datatype exn = ReadError | WriteError

record 'w state =
  files :: "pystr \<rightharpoonup> pystr"
  events :: "event list"
  world :: 'w

record 'w env =
  api :: "'w \<Rightarrow> request \<Rightarrow> outcome \<times> 'w"
  isalnum :: "pychar \<Rightarrow> bool"
  walk :: "pystr \<Rightarrow> (pystr \<times> pystr list \<times> pystr list) list"
  write_outcome :: "pystr \<Rightarrow> pystr \<Rightarrow> pystr option option"
  linesep :: pystr

fun read_newlines :: "pystr \<Rightarrow> pystr" where
  "read_newlines [] = []"
| "read_newlines [c] = [if c = 13 then 10 else c]"
| "read_newlines (c # d # cs) =
     (if c = 13
      then (if d = 10 then 10 # read_newlines cs else 10 # read_newlines (d # cs))
      else c # read_newlines (d # cs))"

definition write_newlines :: "pystr \<Rightarrow> pystr \<Rightarrow> pystr" where
  "write_newlines sep s = concat (map (\<lambda>c. if c = 10 then sep else [c]) s)"

text \<open>\<^verbatim>\<open>open(path, "r", encoding="utf-8").read()\<close>\<close>

definition read_text :: "'w state \<Rightarrow> pystr \<Rightarrow> pystr option" where
  "read_text st path = map_option read_newlines (files st path)"

text \<open>
  The requests sent, the texts given to \<^verbatim>\<open>write\<close> and the arguments of the calls of
  \<^verbatim>\<open>extract_context\<close>, each in order: the \<open>Call\<close>, \<open>Write\<close> and \<open>Extract\<close> events of a trace.
\<close>

fun requests :: "event list \<Rightarrow> request list" where
  "requests [] = []"
| "requests (Call r # es) = r # requests es"
| "requests (e # es) = requests es"

fun writes :: "event list \<Rightarrow> (pystr \<times> pystr) list" where
  "writes [] = []"
| "writes (Write path s # es) = (path, s) # writes es"
| "writes (e # es) = writes es"

fun extractions :: "event list \<Rightarrow> pystr list" where
  "extractions [] = []"
| "extractions (Extract s # es) = s # extractions es"
| "extractions (e # es) = extractions es"

definition emit :: "event \<Rightarrow> 'w state \<Rightarrow> 'w state" where
  "emit e st = st\<lparr>events := events st @ [e]\<rparr>"

section \<open>Configuration and prompts\<close>

definition AZURE_DEPLOYMENT_NAME :: pystr where
  "AZURE_DEPLOYMENT_NAME = py ''gpt-4o''"

definition ROOT_PATH :: pystr where
  "ROOT_PATH = py ''<path>''"

definition SYSTEM_PROMPT :: pystr where
  "SYSTEM_PROMPT =
     py ''You are an assistant that helps upgrade older C# code to be compatible with .NET 8.'' @ nl
     @ nl
     @ py ''Your task is to:'' @ nl
     @ py ''- Identify and update any code patterns, APIs, or configurations that are incompatible with .NET 8, even if they originate from versions earlier than .NET 4.8.'' @ nl
     @ py ''- If the code is outdated but still compatible with .NET 8, leave it unchanged unless there'' @ [39] @ py ''s a strong reason to modernize it.'' @ nl
     @ py ''- If the existing code is not incompatible with .NET 8, return '' @ [39] @ py ''compatible'' @ [39] @ py ''.'' @ nl
     @ py ''- Ensure any code that must be changed compiles and follows best practices for .NET 8.'' @ nl
     @ py ''- Leave all code that is not incompatible with .NET 8 alone, including comments. Simplifying whitespace is fine.'' @ nl
     @ nl
     @ py ''If you encounter legacy APIs or patterns that have a clear modern equivalent (e.g., Web Forms, System.Web, or FormsAuth), implement it where feasible.'' @ nl"

text \<open>
  \<^verbatim>\<open>USER_PROMPT_TEMPLATE.format(chunk_context=..., code_chunk=...)\<close>: the template with its
  two fields replaced.  The replacement text is not scanned again, so braces in the code
  are harmless.  The three backquotes of the code fence are the code point 96.
\<close>

definition USER_PROMPT_TEMPLATE :: "pystr \<Rightarrow> pystr \<Rightarrow> pystr" where
  "USER_PROMPT_TEMPLATE chunk_context code_chunk =
     py ''Please upgrade the following .NET 4.8 C# code to .NET 8.'' @ nl
     @ py ''If it is already compatible, return '' @ [39] @ py ''compatible'' @ [39] @ py ''.'' @ nl
     @ nl
     @ py ''Chunk context (from entire file):'' @ nl
     @ chunk_context @ nl
     @ nl
     @ py ''Code:'' @ nl
     @ [96, 96, 96] @ py ''csharp'' @ nl
     @ code_chunk @ nl
     @ [96, 96, 96] @ nl"

section \<open>The remote completion client\<close>

text \<open>
  \<^verbatim>\<open>
  def upgrade_code_chunk(code_chunk, chunk_context):
      combined_code = chunk_context + "\n\n" + code_chunk if chunk_context else code_chunk
      user_prompt = USER_PROMPT_TEMPLATE.format(
          chunk_context=chunk_context, code_chunk=combined_code)
      try:
          response = openai.ChatCompletion.create(
              engine=AZURE_DEPLOYMENT_NAME,
              messages=[{"role": "system", "content": SYSTEM_PROMPT},
                        {"role": "user", "content": user_prompt}],
              temperature=0.0)
          updated_content = response["choices"][0]["message"]["content"]
          return updated_content
      except Exception as e:
          logging.error(f"Error calling Azure OpenAI API: {e}")
          return code_chunk
  \<close>
\<close>

definition user_prompt :: "pystr \<Rightarrow> pystr \<Rightarrow> pystr" where
  "user_prompt code_chunk chunk_context =
     (let combined_code =
            (if chunk_context \<noteq> [] then chunk_context @ nl @ nl @ code_chunk else code_chunk)
      in USER_PROMPT_TEMPLATE chunk_context combined_code)"

definition chat_request :: "pystr \<Rightarrow> pystr \<Rightarrow> request" where
  "chat_request code_chunk chunk_context =
     \<lparr>engine = AZURE_DEPLOYMENT_NAME,
      messages = [(py ''system'', SYSTEM_PROMPT),
                  (py ''user'', user_prompt code_chunk chunk_context)],
      temperature = 0\<rparr>"

definition upgrade_code_chunk ::
  "('w, 'e) env_scheme \<Rightarrow> pystr \<Rightarrow> pystr \<Rightarrow> 'w state \<Rightarrow> pystr \<times> 'w state" where
  "upgrade_code_chunk env code_chunk chunk_context st =
     (let req = chat_request code_chunk chunk_context;
          st1 = emit (Call req) st
      in case api env (world st1) req of
           (Content updated_content, w) \<Rightarrow> (updated_content, st1\<lparr>world := w\<rparr>)
         | (Raises e, w) \<Rightarrow>
             (code_chunk,
              emit (Log ERROR (py ''Error calling Azure OpenAI API: '' @ e)) (st1\<lparr>world := w\<rparr>)))"

section \<open>The file processor\<close>

text \<open>
  \<^verbatim>\<open>
  def process_file(cs_file):
      logging.info(f"Processing: {cs_file}")
      with open(cs_file, "r", encoding="utf-8") as f:
          original_code = f.read()
      chunks = chunk_text(original_code, CHUNK_SIZE)
      context = extract_context(original_code) if len(chunks) > 1 else ""
      updated_file_content = []
      for chunk in chunks:
          updated_chunk = upgrade_code_chunk(chunk, context)
          if updated_chunk.strip() == "compatible":
              updated_chunk = chunk
          updated_file_content.append(updated_chunk)
      final_code = "\n".join(updated_file_content)
      with open(cs_file, "w", encoding="utf-8") as out_f:
          out_f.write(final_code)
      logging.info(f"Finished processing: {cs_file}")
  \<close>
  \<open>upgrade_step\<close> is the body of the \<^verbatim>\<open>for\<close> loop up to the \<^verbatim>\<open>append\<close>, \<open>upgrade_chunks\<close>
  the loop, with \<open>updated_file_content\<close> as its accumulator, and \<open>file_context\<close> the
  conditional expression that gives \<open>context\<close>: it calls \<^verbatim>\<open>extract_context\<close>, which the trace
  records, when there is more than one chunk, and calls nothing otherwise.
\<close>

definition upgrade_step ::
  "('w, 'e) env_scheme \<Rightarrow> pystr \<Rightarrow> pystr \<Rightarrow> 'w state \<Rightarrow> pystr \<times> 'w state" where
  "upgrade_step env context chunk st =
     (let (updated_chunk, st1) = upgrade_code_chunk env chunk context st
      in (if py_strip updated_chunk = py ''compatible'' then chunk else updated_chunk, st1))"

fun upgrade_chunks ::
  "('w, 'e) env_scheme \<Rightarrow> pystr \<Rightarrow> pystr list \<Rightarrow> pystr list \<Rightarrow> 'w state
     \<Rightarrow> pystr list \<times> 'w state" where
  "upgrade_chunks env context [] updated_file_content st = (updated_file_content, st)"
| "upgrade_chunks env context (chunk # rest) updated_file_content st =
     (let (updated_chunk, st1) = upgrade_step env context chunk st
      in upgrade_chunks env context rest (updated_file_content @ [updated_chunk]) st1)"

definition file_context ::
  "('w, 'e) env_scheme \<Rightarrow> pystr \<Rightarrow> pystr list \<Rightarrow> 'w state \<Rightarrow> pystr \<times> 'w state" where
  "file_context env original_code chunks st =
     (if length chunks > 1
      then (extract_context (isalnum env) original_code, emit (Extract original_code) st)
      else ([], st))"

definition write_back ::
  "('w, 'e) env_scheme \<Rightarrow> pystr \<Rightarrow> pystr \<Rightarrow> 'w state \<Rightarrow> (exn + unit) \<times> 'w state" where
  "write_back env cs_file final_code st =
     (let st1 = emit (Write cs_file final_code) st
      in case write_outcome env cs_file final_code of
           None \<Rightarrow>
             (Inr (),
              emit (Log INFO (py ''Finished processing: '' @ cs_file))
                (st1\<lparr>files := (files st1)(cs_file \<mapsto> write_newlines (linesep env) final_code)\<rparr>))
         | Some left \<Rightarrow> (Inl WriteError, st1\<lparr>files := (files st1)(cs_file := left)\<rparr>))"

definition process_file ::
  "('w, 'e) env_scheme \<Rightarrow> pystr \<Rightarrow> 'w state \<Rightarrow> ((exn + unit) \<times> 'w state) option" where
  "process_file env cs_file st =
     (let st1 = emit (Log INFO (py ''Processing: '' @ cs_file)) st;
          st2 = emit (Read cs_file) st1
      in case read_text st2 cs_file of
           None \<Rightarrow> Some (Inl ReadError, st2)
         | Some original_code \<Rightarrow>
             (case chunk_text original_code CHUNK_SIZE of
                None \<Rightarrow> None
              | Some chunks \<Rightarrow>
                  (let (context, st3) = file_context env original_code chunks st2;
                       (updated_file_content, st4) = upgrade_chunks env context chunks [] st3;
                       final_code = py_join nl updated_file_content
                   in Some (write_back env cs_file final_code st4))))"

text \<open>The state of \<open>process_file\<close> after the first log record and the read.\<close>

abbreviation after_read :: "pystr \<Rightarrow> 'w state \<Rightarrow> 'w state" where
  "after_read cs_file st \<equiv> emit (Read cs_file) (emit (Log INFO (py ''Processing: '' @ cs_file)) st)"

section \<open>The file discoverer and the driver\<close>

text \<open>\<^verbatim>\<open>os.path.join(root, f)\<close> on a POSIX system.\<close>

definition os_path_join :: "pystr \<Rightarrow> pystr \<Rightarrow> pystr" where
  "os_path_join a b =
     (if startswith b (py ''/'') then b
      else if a = [] \<or> endswith a (py ''/'') then a @ b
      else a @ py ''/'' @ b)"

text \<open>
  \<^verbatim>\<open>
  def get_csharp_files(base_path):
      csharp_files = []
      for root, dirs, files in os.walk(base_path):
          for f in files:
              if f.endswith(".cs"):
                  csharp_files.append(os.path.join(root, f))
      return csharp_files
  \<close>
\<close>

definition get_csharp_files :: "('w, 'e) env_scheme \<Rightarrow> pystr \<Rightarrow> pystr list" where
  "get_csharp_files env base_path =
     concat (map (\<lambda>(root, dirs, fs).
                    map (os_path_join root) (filter (\<lambda>f. endswith f (py ''.cs'')) fs))
                 (walk env base_path))"

text \<open>
  \<^verbatim>\<open>
  def main():
      cs_files = get_csharp_files(ROOT_PATH)
      if not cs_files:
          logging.warning("No .cs files found in the specified directory.")
          return
      logging.info(f"Found {len(cs_files)} .cs files. Starting upgrade...")
      with concurrent.futures.ThreadPoolExecutor() as executor:
          futures = [executor.submit(process_file, cs_file) for cs_file in cs_files]
          concurrent.futures.wait(futures)
      logging.info("All files processed. Upgrade complete.")
  \<close>
  The worker pool runs the submitted tasks concurrently.  \<open>run_tasks\<close> is the schedule of a
  pool with one worker: the tasks one after the other, in the order of submission.  An
  exception of a task stays in its future, which nobody reads, so the result of a task is
  dropped.
\<close>

fun run_tasks :: "('w, 'e) env_scheme \<Rightarrow> pystr list \<Rightarrow> 'w state \<Rightarrow> 'w state option" where
  "run_tasks env [] st = Some st"
| "run_tasks env (cs_file # rest) st =
     (case process_file env cs_file st of
        None \<Rightarrow> None
      | Some (result, st1) \<Rightarrow> run_tasks env rest st1)"

definition main :: "('w, 'e) env_scheme \<Rightarrow> 'w state \<Rightarrow> 'w state option" where
  "main env st =
     (let cs_files = get_csharp_files env ROOT_PATH
      in if cs_files = []
         then Some (emit (Log WARNING (py ''No .cs files found in the specified directory.'')) st)
         else (let st1 = emit (Log INFO (py ''Found '' @ str_of_nat (length cs_files)
                                          @ py '' .cs files. Starting upgrade...'')) st;
                   st2 = foldl (\<lambda>s cs_file. emit (Submit cs_file) s) st1 cs_files
               in case run_tasks env cs_files st2 of
                    None \<Rightarrow> None
                  | Some st3 \<Rightarrow>
                      Some (emit (Log INFO (py ''All files processed. Upgrade complete.'')) st3)))"

section \<open>Example environments\<close>

text \<open>
  Concrete collaborators on which the theorems below are instantiated: an endpoint that
  answers its \<open>n\<close>-th call with the \<open>n\<close>-th outcome of a script (its state is the number of
  calls so far), a POSIX file system on which every write succeeds, and a disk with one
  file.
\<close>

definition scripted_env :: "outcome list \<Rightarrow> nat env" where
  "scripted_env answers =
     \<lparr>api = (\<lambda>w req. (if w < length answers then answers ! w else Raises (py ''no answer''),
                        Suc w)),
      isalnum = (\<lambda>c. False),
      walk = (\<lambda>p. []),
      write_outcome = (\<lambda>p c. None),
      linesep = nl\<rparr>"

definition disk :: "pystr \<Rightarrow> pystr \<Rightarrow> nat state" where
  "disk path content = \<lparr>files = [path \<mapsto> content], events = [], world = 0\<rparr>"

text \<open>A text longer than one chunk that starts with a using directive.\<close>

definition long_code :: pystr where
  "long_code = py ''using A;'' @ replicate 200000 120"

text \<open>A text of 250000 characters that starts with a using directive.\<close>

definition code_250k :: pystr where
  "code_250k = py ''using A;'' @ replicate 249992 120"

section \<open>Properties of the chunker\<close>

lemma py_slice_nat:
  "py_slice xs (int a) (int a + int c) = take c (drop a xs)"
  by (simp add: py_slice_def Let_def drop_take min_def nat_add_distrib)

lemma chunk_bound:
  fixes c k L :: nat
  assumes c: "0 < c"
  shows "(k * c < L) = (k < (L + c - 1) div c)"
proof -
  have "(k < (L + c - 1) div c) = (Suc k \<le> (L + c - 1) div c)" by auto
  also have "\<dots> = (Suc k * c \<le> L + c - 1)"
    using c by (simp add: less_eq_div_iff_mult_less_eq)
  also have "\<dots> = (k * c < L)" using c by auto
  finally show ?thesis by simp
qed

text \<open>
  The loop started at the \<open>k\<close>-th chunk boundary appends the slices
  \<open>text[i*c : (i+1)*c]\<close> for the remaining \<open>i\<close>, and returns.
\<close>

lemma chunk_loop_run:
  assumes c: "0 < c"
  shows "chunk_loop text (int c) (int (k * c)) acc =
           Some (acc @ map (\<lambda>i. take c (drop (i * c) text))
                          [k..<(length text + c - 1) div c])"
proof (induction "(length text + c - 1) div c - k" arbitrary: k acc)
  case 0
  then have "\<not> k < (length text + c - 1) div c" by simp
  then have "\<not> k * c < length text" using chunk_bound[OF c] by simp
  then have "\<not> int (k * c) < int (length text)" by (metis of_nat_less_iff)
  then show ?case using 0 by (subst chunk_loop.simps) (simp del: of_nat_mult)
next
  case (Suc n)
  then have lt: "k < (length text + c - 1) div c" by simp
  then have "k * c < length text" using chunk_bound[OF c] by simp
  then have cond: "int (k * c) < int (length text)" by (simp only: of_nat_less_iff)
  have n: "n = (length text + c - 1) div c - Suc k" using Suc by simp
  have step: "int (k * c) + int c = int (Suc k * c)" by simp
  have sl: "py_slice text (int (k * c)) (int (Suc k * c)) = take c (drop (k * c) text)"
    using py_slice_nat[of "text" "k * c" c] by (simp only: step)
  have "chunk_loop text (int c) (int (k * c)) acc =
          chunk_loop text (int c) (int (Suc k * c)) (acc @ [take c (drop (k * c) text)])"
    by (subst chunk_loop.simps) (simp only: cond if_True step sl)
  also have "\<dots> = Some ((acc @ [take c (drop (k * c) text)]) @
       map (\<lambda>i. take c (drop (i * c) text)) [Suc k..<(length text + c - 1) div c])"
    by (rule Suc.hyps(1)[OF n])
  also have "\<dots> = Some (acc @ map (\<lambda>i. take c (drop (i * c) text))
                                   [k..<(length text + c - 1) div c])"
    using lt by (simp add: upt_conv_Cons del: mult_Suc)
  finally show ?case .
qed

lemma chunk_text_eq:
  assumes "0 < chunk_size"
  shows "chunk_text text chunk_size =
           Some (map (\<lambda>i. take (nat chunk_size) (drop (i * nat chunk_size) text))
                     [0..<(length text + nat chunk_size - 1) div nat chunk_size])"
proof -
  have "0 < nat chunk_size" using assms by simp
  from chunk_loop_run[OF this, of "text" 0 "[]"] assms
  show ?thesis by (simp add: chunk_text_def)
qed

lemma concat_chunks:
  "0 < c \<Longrightarrow>
   concat (map (\<lambda>i. take c (drop (i * c) xs)) [k..<(length xs + c - 1) div c]) =
     drop (k * c) xs"
proof (induction "(length xs + c - 1) div c - k" arbitrary: k)
  case 0
  then have "\<not> k < (length xs + c - 1) div c" by simp
  then have "\<not> k * c < length xs" using chunk_bound[of c k "length xs"] 0 by simp
  then show ?case using 0 by simp
next
  case (Suc n)
  then have lt: "k < (length xs + c - 1) div c" by simp
  have n: "n = (length xs + c - 1) div c - Suc k" using Suc by simp
  have d: "drop (Suc k * c) xs = drop c (drop (k * c) xs)" by (simp add: add.commute)
  have "concat (map (\<lambda>i. take c (drop (i * c) xs)) [k..<(length xs + c - 1) div c])
      = take c (drop (k * c) xs) @ drop (Suc k * c) xs"
    using lt Suc.hyps(1)[OF n Suc.prems] by (simp add: upt_conv_Cons del: mult_Suc)
  also have "\<dots> = drop (k * c) xs" by (simp only: d append_take_drop_id)
  finally show ?case .
qed

lemma ceil_nat:
  assumes c: "0 < c"
  shows "int ((L + c - 1) div c) = \<lceil>real L / real c\<rceil>"
proof -
  define q where "q = (L + c - 1) div c"
  have "L + c - 1 = q * c + (L + c - 1) mod c" by (simp add: q_def)
  moreover have "(L + c - 1) mod c < c" using c by simp
  ultimately have lo: "L \<le> q * c" and hi: "q * c < L + c" by linarith+
  have "real L \<le> real q * real c" using lo by (metis of_nat_le_iff of_nat_mult)
  then have a: "real L / real c \<le> real q" using c by (simp add: pos_divide_le_eq)
  have "real q * real c < real L + real c"
    using hi by (metis of_nat_less_iff of_nat_mult of_nat_add)
  then have "(real q - 1) * real c < real L" by (simp add: algebra_simps)
  then have b: "real q - 1 < real L / real c" using c by (simp add: pos_less_divide_eq)
  have "\<lceil>real L / real c\<rceil> = int q"
    by (rule ceiling_unique) (use a b in simp_all)
  then show ?thesis by (simp add: q_def)
qed

text \<open>
  C1.  For a text of length \<open>L\<close> and a chunk size \<open>C > 0\<close>, \<open>chunk_text\<close> returns, and
  what it returns is a list of exactly \<open>\<lceil>L / C\<rceil>\<close> chunks (none when \<open>L = 0\<close>); every chunk
  has length at most \<open>C\<close>; the \<open>i\<close>-th chunk is the substring of the text that starts at
  offset \<open>i * C\<close> and is at most \<open>C\<close> long, so the chunks are contiguous, in the original
  order and do not overlap; and the concatenation of the chunks is the text.
\<close>

theorem chunk_text_chunks:
  assumes "0 < chunk_size"
  shows "\<exists>chunks. chunk_text text chunk_size = Some chunks
           \<and> int (length chunks) = \<lceil>real (length text) / real_of_int chunk_size\<rceil>
           \<and> (length text = 0 \<longrightarrow> chunks = [])
           \<and> (\<forall>c \<in> set chunks. int (length c) \<le> chunk_size)
           \<and> (\<forall>i < length chunks.
                 chunks ! i = take (nat chunk_size) (drop (i * nat chunk_size) text))
           \<and> concat chunks = text"
proof -
  define c where "c = nat chunk_size"
  define m where "m = (length text + c - 1) div c"
  define chunks where "chunks = map (\<lambda>i. take c (drop (i * c) text)) [0..<m]"
  have c: "0 < c" and cs: "chunk_size = int c" using assms by (simp_all add: c_def)
  have run: "chunk_text text chunk_size = Some chunks"
    using chunk_text_eq[OF assms] by (simp add: chunks_def m_def c_def)
  have len: "length chunks = m" by (simp add: chunks_def)
  have "int m = \<lceil>real (length text) / real c\<rceil>"
    unfolding m_def by (rule ceil_nat[OF c])
  then have count: "int (length chunks) = \<lceil>real (length text) / real_of_int chunk_size\<rceil>"
    by (simp add: len cs)
  have empty: "length text = 0 \<longrightarrow> chunks = []"
    using c by (simp add: chunks_def m_def)
  have bound: "\<forall>x \<in> set chunks. int (length x) \<le> chunk_size"
    by (auto simp: chunks_def cs)
  have nth: "\<forall>i < length chunks. chunks ! i = take (nat chunk_size) (drop (i * nat chunk_size) text)"
    by (simp add: chunks_def c_def)
  have cat: "concat chunks = text"
    using concat_chunks[OF c, of "text" 0] by (simp add: chunks_def m_def)
  from run count empty bound nth cat show ?thesis by blast
qed

theorem chunk_text_chunks_witness:
  "(0::int) < 2
   \<and> (\<exists>chunks. chunk_text [1, 2, 3, 4, 5 :: nat] 2 = Some chunks
         \<and> length chunks = 3
         \<and> list_all (\<lambda>c. length c \<le> 2) chunks
         \<and> chunks ! 0 = [1, 2] \<and> chunks ! 1 = [3, 4] \<and> chunks ! 2 = [5]
         \<and> concat chunks = [1, 2, 3, 4, 5])"
proof -
  have pos: "(0::int) < 2" by simp
  from chunk_text_chunks[OF pos, of "[1, 2, 3, 4, 5 :: nat]"]
  obtain chunks where run: "chunk_text [1, 2, 3, 4, 5 :: nat] 2 = Some chunks"
    and count: "int (length chunks) = \<lceil>real (length [1, 2, 3, 4, 5 :: nat]) / real_of_int 2\<rceil>"
    and bound: "\<forall>c \<in> set chunks. int (length c) \<le> 2"
    and nth: "\<forall>i < length chunks. chunks ! i = take (nat 2) (drop (i * nat 2) [1, 2, 3, 4, 5 :: nat])"
    and cat: "concat chunks = [1, 2, 3, 4, 5]"
    by blast
  have three: "length chunks = 3" using count by simp
  have small: "list_all (\<lambda>c. length c \<le> 2) chunks"
    using bound by (simp add: list_all_iff)
  have "chunks ! 0 = [1, 2]" "chunks ! 1 = [3, 4]" "chunks ! 2 = [5]"
    using nth three by simp_all
  with pos run three small cat show ?thesis by blast
qed

text \<open>
  C8.  For a chunk size \<open>C > 0\<close> the chunker terminates with exactly one result, a value
  that depends on nothing but the text and the chunk size, and this list of chunks is
  non-empty exactly when the text is non-empty.
\<close>

theorem chunk_text_terminates:
  assumes "0 < chunk_size"
  shows "(\<exists>!chunks. chunk_text text chunk_size = Some chunks)
           \<and> (\<forall>chunks. chunk_text text chunk_size = Some chunks \<longrightarrow>
                 (chunks \<noteq> []) = (text \<noteq> []))"
proof -
  define c where "c = nat chunk_size"
  have c: "0 < c" using assms by (simp add: c_def)
  have run: "chunk_text text chunk_size =
      Some (map (\<lambda>i. take c (drop (i * c) text)) [0..<(length text + c - 1) div c])"
    using chunk_text_eq[OF assms] by (simp add: c_def)
  have "(0 < (length text + c - 1) div c) = (0 < length text)"
    using chunk_bound[OF c, of 0 "length text"] by simp
  then have "(map (\<lambda>i. take c (drop (i * c) text)) [0..<(length text + c - 1) div c] \<noteq> [])
      = (text \<noteq> [])" by simp
  with run show ?thesis by auto
qed

theorem chunk_text_terminates_witness:
  "(0::int) < 3
   \<and> (\<exists>chunks. chunk_text [7, 8, 9, 10 :: nat] 3 = Some chunks \<and> chunks \<noteq> [])
   \<and> chunk_text ([] :: nat list) 3 = Some []"
proof -
  have pos: "(0::int) < 3" by simp
  note t = chunk_text_terminates[OF pos]
  from t[of "[7, 8, 9, 10 :: nat]"]
  have a: "\<exists>chunks. chunk_text [7, 8, 9, 10 :: nat] 3 = Some chunks \<and> chunks \<noteq> []"
    by auto
  from t[of "[] :: nat list"] have b: "chunk_text ([] :: nat list) 3 = Some []"
    by auto
  from pos a b show ?thesis by blast
qed
section \<open>Properties of the remote completion client\<close>

lemma world_emit: "world (emit e st) = world st"
  by (simp add: emit_def)

lemma files_emit: "files (emit e st) = files st"
  by (simp add: emit_def)

lemma events_emit: "events (emit e st) = events st @ [e]"
  by (simp add: emit_def)

lemma upgrade_code_chunk_content:
  assumes "api env (world st) (chat_request code_chunk chunk_context) = (Content r, w)"
  shows "upgrade_code_chunk env code_chunk chunk_context st =
           (r, st\<lparr>events := events st @ [Call (chat_request code_chunk chunk_context)],
                  world := w\<rparr>)"
  using assms by (simp add: upgrade_code_chunk_def Let_def emit_def)

lemma upgrade_code_chunk_raises:
  assumes "api env (world st) (chat_request code_chunk chunk_context) = (Raises e, w)"
  shows "upgrade_code_chunk env code_chunk chunk_context st =
           (code_chunk,
            st\<lparr>events := events st @ [Call (chat_request code_chunk chunk_context),
                                       Log ERROR (py ''Error calling Azure OpenAI API: '' @ e)],
               world := w\<rparr>)"
  using assms by (simp add: upgrade_code_chunk_def Let_def emit_def)

lemma upgrade_step_compatible:
  assumes "api env (world st) (chat_request chunk context) = (Content r, w)"
    and "py_strip r = py ''compatible''"
  shows "fst (upgrade_step env context chunk st) = chunk"
  using assms by (simp add: upgrade_step_def upgrade_code_chunk_content)

lemma upgrade_step_raises:
  assumes "api env (world st) (chat_request chunk context) = (Raises e, w)"
  shows "upgrade_step env context chunk st = upgrade_code_chunk env chunk context st"
    and "fst (upgrade_step env context chunk st) = chunk"
  using assms by (simp_all add: upgrade_step_def upgrade_code_chunk_raises)

lemma upgrade_chunks_acc:
  "upgrade_chunks env context chunks acc st =
     (acc @ fst (upgrade_chunks env context chunks [] st),
      snd (upgrade_chunks env context chunks [] st))"
proof (induction chunks arbitrary: acc st)
  case Nil
  show ?case by simp
next
  case (Cons chunk rest)
  obtain u st1 where step: "upgrade_step env context chunk st = (u, st1)"
    by (cases "upgrade_step env context chunk st")
  show ?case
    using Cons.IH[of "acc @ [u]" st1] Cons.IH[of "[u]" st1] by (simp add: step)
qed

lemma upgrade_chunks_Cons:
  "upgrade_chunks env context (chunk # rest) [] st =
     (fst (upgrade_step env context chunk st)
        # fst (upgrade_chunks env context rest [] (snd (upgrade_step env context chunk st))),
      snd (upgrade_chunks env context rest [] (snd (upgrade_step env context chunk st))))"
proof -
  obtain u st1 where step: "upgrade_step env context chunk st = (u, st1)"
    by (cases "upgrade_step env context chunk st")
  show ?thesis using upgrade_chunks_acc[of env "context" rest "[u]" st1] by (simp add: step)
qed

lemma length_upgrade_chunks:
  "length (fst (upgrade_chunks env context chunks [] st)) = length chunks"
  by (induction chunks arbitrary: st) (simp_all add: upgrade_chunks_Cons del: upgrade_chunks.simps(2))

lemma upgrade_chunks_nth:
  "i < length chunks \<Longrightarrow>
   fst (upgrade_chunks env context chunks [] st) ! i =
     fst (upgrade_step env context (chunks ! i)
            (snd (upgrade_chunks env context (take i chunks) [] st)))"
proof (induction chunks arbitrary: i st)
  case Nil
  then show ?case by simp
next
  case (Cons chunk rest)
  show ?case
  proof (cases i)
    case 0
    then show ?thesis by (simp add: upgrade_chunks_Cons del: upgrade_chunks.simps(2))
  next
    case (Suc k)
    then have "k < length rest" using Cons.prems by simp
    from Cons.IH[OF this] show ?thesis by (simp add: Suc upgrade_chunks_Cons del: upgrade_chunks.simps(2))
  qed
qed


lemma read_text_emit: "read_text (emit e st) path = read_text st path"
  by (simp add: read_text_def emit_def)

lemma file_context_fst:
  "fst (file_context env original_code chunks st) =
     (if 1 < length chunks then extract_context (isalnum env) original_code else [])"
  by (simp add: file_context_def)

lemma file_context_snd:
  "snd (file_context env original_code chunks st) =
     (if 1 < length chunks then emit (Extract original_code) st else st)"
  by (simp add: file_context_def)

lemma world_file_context: "world (snd (file_context env original_code chunks st)) = world st"
  by (simp add: file_context_def emit_def)

lemma files_file_context: "files (snd (file_context env original_code chunks st)) = files st"
  by (simp add: file_context_def emit_def)

lemma process_file_eq:
  assumes "read_text st cs_file = Some original_code"
    and "chunk_text original_code CHUNK_SIZE = Some chunks"
    and "file_context env original_code chunks (after_read cs_file st) = (ctx, st0)"
  shows "process_file env cs_file st =
           Some (write_back env cs_file
                   (py_join nl (fst (upgrade_chunks env ctx chunks [] st0)))
                   (snd (upgrade_chunks env ctx chunks [] st0)))"
  using assms by (simp add: process_file_def Let_def read_text_emit split_beta)

lemma CHUNK_SIZE_pos: "0 < CHUNK_SIZE"
  by (simp add: CHUNK_SIZE_def)

lemma chunk_text_small:
  assumes "text \<noteq> []" and "int (length text) \<le> chunk_size"
  shows "chunk_text text chunk_size = Some [text]"
proof -
  have pos: "0 < chunk_size" using assms by (cases "text") auto
  have "(length text + nat chunk_size - 1) div nat chunk_size = 1"
  proof -
    have "0 < length text" "length text \<le> nat chunk_size" using assms by auto
    then have "nat chunk_size \<le> length text + nat chunk_size - 1"
      "length text + nat chunk_size - 1 < 2 * nat chunk_size" by linarith+
    then show ?thesis using pos by (simp add: div_nat_eqI)
  qed
  then show ?thesis using chunk_text_eq[OF pos, of "text"] assms by simp
qed

lemma chunk_text_concat:
  assumes "0 < chunk_size" and "chunk_text text chunk_size = Some chunks"
  shows "concat chunks = text"
proof -
  have "0 < nat chunk_size" using assms(1) by simp
  from concat_chunks[OF this, of "text" 0] chunk_text_eq[OF assms(1), of "text"] assms(2)
  show ?thesis by simp
qed

lemma length_py_join:
  "xs \<noteq> [] \<Longrightarrow>
   length (py_join sep xs) = length (concat xs) + (length xs - 1) * length sep"
  by (induction sep xs rule: py_join.induct) simp_all

lemma write_back_ok:
  assumes "write_outcome env cs_file final_code = None"
  shows "write_back env cs_file final_code st =
           (Inr (),
            st\<lparr>files := (files st)(cs_file \<mapsto> write_newlines (linesep env) final_code),
               events := events st @ [Write cs_file final_code,
                                      Log INFO (py ''Finished processing: '' @ cs_file)]\<rparr>)"
  using assms by (simp add: write_back_def Let_def emit_def)

lemma files_upgrade_code_chunk:
  "files (snd (upgrade_code_chunk env chunk ctx st)) = files st"
  by (cases "api env (world st) (chat_request chunk ctx)";
      cases "fst (api env (world st) (chat_request chunk ctx))")
     (simp_all add: upgrade_code_chunk_def Let_def emit_def)

lemma files_upgrade_step:
  "files (snd (upgrade_step env ctx chunk st)) = files st"
  using files_upgrade_code_chunk[of env chunk ctx st]
  by (simp add: upgrade_step_def split_beta)

lemma files_upgrade_chunks:
  "files (snd (upgrade_chunks env ctx chunks [] st)) = files st"
  by (induction chunks arbitrary: st)
     (simp_all add: upgrade_chunks_Cons files_upgrade_step del: upgrade_chunks.simps(2))

lemma upgrade_chunks_all_compatible:
  assumes "\<forall>i<length chunks. \<exists>r w.
             api env (world (snd (upgrade_chunks env ctx (take i chunks) [] st)))
               (chat_request (chunks ! i) ctx) = (Content r, w)
             \<and> py_strip r = py ''compatible''"
  shows "fst (upgrade_chunks env ctx chunks [] st) = chunks"
proof (rule nth_equalityI)
  show "length (fst (upgrade_chunks env ctx chunks [] st)) = length chunks"
    by (rule length_upgrade_chunks)
next
  fix i
  assume "i < length (fst (upgrade_chunks env ctx chunks [] st))"
  then have i: "i < length chunks" by (simp add: length_upgrade_chunks)
  with assms obtain r w where
    call: "api env (world (snd (upgrade_chunks env ctx (take i chunks) [] st)))
             (chat_request (chunks ! i) ctx) = (Content r, w)"
    and marker: "py_strip r = py ''compatible''"
    by blast
  show "fst (upgrade_chunks env ctx chunks [] st) ! i = chunks ! i"
    using upgrade_chunks_nth[OF i, of env ctx st] upgrade_step_compatible[OF call marker]
    by simp
qed

lemma chunk_text_two:
  assumes "0 < chunk_size" and "chunk_size < int (length text)"
    and "int (length text) \<le> 2 * chunk_size"
  shows "chunk_text text chunk_size = Some [take (nat chunk_size) text, drop (nat chunk_size) text]"
proof -
  define c where "c = nat chunk_size"
  have c: "0 < c" "c < length text" "length text \<le> 2 * c" using assms by (simp_all add: c_def)
  have "(length text + c - 1) div c = 2"
  proof (rule div_nat_eqI)
    show "c * 2 \<le> length text + c - 1" using c by linarith
    show "length text + c - 1 < c * Suc 2" using c by simp
  qed
  moreover have "[0..<2] = [0, Suc 0]" by (simp add: upt_rec)
  moreover have "take c (drop c text) = drop c text" using c by simp
  ultimately show ?thesis
    using chunk_text_eq[OF assms(1), of "text"] by (simp add: c_def)
qed

section \<open>Line ends\<close>

lemma write_newlines_nl: "write_newlines nl s = s"
  by (induction s) (simp_all add: write_newlines_def nl_def)

lemma read_newlines_no_cr: "13 \<notin> set (read_newlines s)"
  by (induction s rule: read_newlines.induct) simp_all

lemma read_newlines_id: "13 \<notin> set s \<Longrightarrow> read_newlines s = s"
  by (induction s rule: read_newlines.induct) simp_all

lemma length_read_newlines:
  "length s \<le> length (read_newlines s) + count_list (read_newlines s) 10"
  by (induction s rule: read_newlines.induct) auto

lemma length_write_newlines_crlf:
  "length (write_newlines [13, 10] s) = length s + count_list s 10"
  by (induction s) (simp_all add: write_newlines_def)

lemma set_py_join_subset: "set (py_join sep xs) \<subseteq> set (concat xs) \<union> set sep"
  by (induction sep xs rule: py_join.induct) auto

lemma count_py_join:
  "count_list (concat xs) c \<le> count_list (py_join sep xs) c"
  by (induction sep xs rule: py_join.induct) simp_all

section \<open>Properties of the context extractor\<close>

lemma py_strip_nonempty:
  assumes "c \<in> set s" and "\<not> is_space c"
  shows "py_strip s \<noteq> []"
proof -
  have ne: "dropWhile is_space s \<noteq> []"
    using assms by (auto simp: dropWhile_eq_Nil_conv)
  then have "\<not> is_space (hd (dropWhile is_space s))" by (rule hd_dropWhile)
  moreover have "hd (dropWhile is_space s) \<in> set (rev (dropWhile is_space s))"
    using ne by simp
  ultimately have "dropWhile is_space (rev (dropWhile is_space s)) \<noteq> []"
    by (auto simp: dropWhile_eq_Nil_conv)
  then show ?thesis by (simp add: py_strip_def)
qed

lemma set_py_join:
  "x \<in> set xs \<Longrightarrow> set x \<subseteq> set (py_join sep xs)"
  by (induction sep xs rule: py_join.induct) auto

lemma rmatch_Seq_iff:
  "(k, g) \<in> set (rmatch alnum (Seq r1 r2) s i) \<longleftrightarrow>
     (\<exists>j g1 g2. (j, g1) \<in> set (rmatch alnum r1 s i) \<and> (k, g2) \<in> set (rmatch alnum r2 s j)
                 \<and> g = g1 @ g2)"
  by (auto simp: image_iff) force

lemma rmatch_mono:
  "(j, g) \<in> set (rmatch alnum r s i) \<Longrightarrow> i \<le> j"
proof (induction r arbitrary: i j g)
  case (Seq r1 r2)
  then show ?case unfolding rmatch_Seq_iff by (meson le_trans)
qed (auto split: if_splits simp: Let_def)

lemma rmatch_Lit_iff:
  "(j, g) \<in> set (rmatch alnum (Lit l) s i) \<longleftrightarrow>
     (take (length l) (drop i s) = l \<and> j = i + length l \<and> g = [])"
  by auto

text \<open>
  A literal that follows two factors of a sequence lies inside every match of the
  sequence, so the match spans the first character of the literal.
\<close>

lemma lit_inside_span:
  assumes "l \<noteq> []" and "i \<le> a" and "take (length l) (drop a s) = l" and "a + length l \<le> j"
  shows "hd l \<in> set (span s i j)"
proof -
  have "length (take (length l) (drop a s)) = length l" using assms(3) by simp
  then have m: "min (length l) (length s - a) = length l" by simp
  have pos: "0 < length l" using assms(1) by simp
  from m pos have len: "a + length l \<le> length s" by arith
  from len pos have alt: "a < length s" and aj: "a < j" using assms(4) by arith+
  have "s ! a = hd (drop a s)" using alt by (simp add: hd_drop_conv_nth)
  also have "\<dots> = hd (take (length l) (drop a s))" using pos by simp
  also have "\<dots> = hd l" by (simp only: assms(3))
  finally have u: "s ! a = hd l" .
  have "span s i j ! (a - i) = s ! a"
    using assms(2) alt aj by (simp add: span_def)
  moreover have "a - i < length (span s i j)"
    using assms(2) alt aj by (auto simp: span_def)
  ultimately show ?thesis using u by (metis nth_mem)
qed

lemma seq_lit_inside:
  assumes "(j, g) \<in> set (rmatch alnum (Seq r1 (Seq r2 (Seq (Lit l) r3))) s i)"
  shows "\<exists>a. i \<le> a \<and> take (length l) (drop a s) = l \<and> a + length l \<le> j"
proof -
  from assms obtain j1 j2 j3 g1 g2 g3 g4 where
    m1: "(j1, g1) \<in> set (rmatch alnum r1 s i)"
    and m2: "(j2, g2) \<in> set (rmatch alnum r2 s j1)"
    and m3: "(j3, g3) \<in> set (rmatch alnum (Lit l) s j2)"
    and m4: "(j, g4) \<in> set (rmatch alnum r3 s j3)"
    unfolding rmatch_Seq_iff by blast
  from m3 have lit: "take (length l) (drop j2 s) = l" and j3: "j3 = j2 + length l"
    unfolding rmatch_Lit_iff by simp_all
  have "i \<le> j2" using rmatch_mono[OF m1] rmatch_mono[OF m2] by simp
  moreover have "j2 + length l \<le> j" using rmatch_mono[OF m4] j3 by simp
  ultimately show ?thesis using lit by blast
qed

text \<open>Every match of the using pattern spans the letter \<open>u\<close>.\<close>

lemma using_match_has_u:
  assumes "(j, g) \<in> set (rmatch alnum using_re s i)"
  shows "117 \<in> set (span s i j)"
proof -
  from assms obtain a where
    a: "i \<le> a" and lit: "take (length (py ''using'')) (drop a s) = py ''using''"
    and b: "a + length (py ''using'') \<le> j"
    unfolding using_re_def seqs.simps by (blast dest: seq_lit_inside)
  have "py ''using'' \<noteq> []" and "hd (py ''using'') = 117" by (simp_all add: py_def)
  with lit_inside_span[OF _ a lit b] show ?thesis by simp
qed

lemma finditer_match:
  "(i, j, g) \<in> set (finditer alnum r s pos) \<Longrightarrow> (j, g) \<in> set (rmatch alnum r s i)"
proof (induction alnum r s pos rule: finditer.induct)
  case (1 alnum r s pos)
  show ?case
  proof (cases "length s < pos")
    case True
    with "1.prems" show ?thesis by (subst (asm) finditer.simps) simp
  next
    case False
    show ?thesis
    proof (cases "rmatch alnum r s pos")
      case Nil
      with False "1.prems" "1.IH"(1) show ?thesis by (subst (asm) finditer.simps) simp
    next
      case (Cons m ms)
      obtain j' g' where m: "m = (j', g')" by (cases m)
      from "1.prems" False Cons m
      consider "(i, j, g) = (pos, j', g')"
        | "(i, j, g) \<in> set (finditer alnum r s (max j' (Suc pos)))"
        by (subst (asm) finditer.simps) auto
      then show ?thesis
      proof cases
        case 1
        then show ?thesis using Cons m by simp
      next
        case 2
        from "1.IH"(2)[OF False Cons m[symmetric] 2] show ?thesis .
      qed
    qed
  qed
qed

lemma is_space_simps:
  "\<not> is_space 117" "\<not> is_space 78" "\<not> is_space 67" "\<not> is_space 77"
  by (simp_all add: is_space_def)

lemma extract_context_nonempty:
  assumes "findall_whole alnum using_re code \<noteq> []
           \<or> search_groups alnum namespace_re code \<noteq> None
           \<or> findall_groups alnum class_re code \<noteq> []
           \<or> findall_groups alnum method_re code \<noteq> []"
  shows "extract_context alnum code \<noteq> []"
proof -
  define parts where "parts =
            (if findall_whole alnum using_re code \<noteq> []
             then [py_join nl (findall_whole alnum using_re code)] else [])
            @ (case search_groups alnum namespace_re code of
                 None \<Rightarrow> []
               | Some g \<Rightarrow> [py ''Namespace: '' @ g ! 0])
            @ (if findall_groups alnum class_re code \<noteq> []
               then [py ''Classes: ''
                       @ py_join (py '', '') (map (\<lambda>c. c ! 0 @ py '' '' @ c ! 1)
                                               (findall_groups alnum class_re code))]
               else [])
            @ (if map (\<lambda>g. g ! 0) (findall_groups alnum method_re code) \<noteq> []
               then [py ''Methods: '' @ py_join (py '', '')
                       (map (\<lambda>g. g ! 0) (findall_groups alnum method_re code))]
               else [])"
  have ec: "extract_context alnum code = py_strip (py_join nl parts)"
    by (simp add: extract_context_def parts_def Let_def)
  have "\<exists>p \<in> set parts. \<exists>c \<in> set p. \<not> is_space c"
  proof -
    consider (u) "findall_whole alnum using_re code \<noteq> []"
      | (n) "search_groups alnum namespace_re code \<noteq> None"
      | (c) "findall_groups alnum class_re code \<noteq> []"
      | (m) "findall_groups alnum method_re code \<noteq> []"
      using assms by blast
    then show ?thesis
    proof cases
      case u
      then obtain x xs where x: "findall_whole alnum using_re code = x # xs"
        by (cases "findall_whole alnum using_re code") auto
      then have "x \<in> set (findall_whole alnum using_re code)" by simp
      then obtain i j g where "(i, j, g) \<in> set (finditer alnum using_re code 0)"
        and xs: "x = span code i j"
        by (auto simp: findall_whole_def)
      then have "117 \<in> set x"
        using using_match_has_u[OF finditer_match] by blast
      then have "117 \<in> set (py_join nl (findall_whole alnum using_re code))"
        using set_py_join[of x "findall_whole alnum using_re code" nl] x by auto
      moreover have "py_join nl (findall_whole alnum using_re code) \<in> set parts"
        using u by (simp add: parts_def)
      ultimately show ?thesis using is_space_simps(1) by blast
    next
      case n
      then obtain g where g: "search_groups alnum namespace_re code = Some g" by auto
      have "py ''Namespace: '' @ g ! 0 \<in> set parts" by (simp add: parts_def g)
      moreover have "78 \<in> set (py ''Namespace: '' @ g ! 0)" by (simp add: py_def)
      ultimately show ?thesis using is_space_simps(2) by blast
    next
      case c
      have "67 \<in> set (py ''Classes: '' @ rest)" for rest by (simp add: py_def)
      moreover have "py ''Classes: ''
                       @ py_join (py '', '') (map (\<lambda>c. c ! 0 @ py '' '' @ c ! 1)
                                               (findall_groups alnum class_re code))
                     \<in> set parts"
        using c by (simp add: parts_def)
      ultimately show ?thesis using is_space_simps(3) by blast
    next
      case m
      have "77 \<in> set (py ''Methods: '' @ rest)" for rest by (simp add: py_def)
      moreover have "py ''Methods: '' @ py_join (py '', '')
                       (map (\<lambda>g. g ! 0) (findall_groups alnum method_re code))
                     \<in> set parts"
        using m by (simp add: parts_def)
      ultimately show ?thesis using is_space_simps(4) by blast
    qed
  qed
  then obtain p c where "p \<in> set parts" "c \<in> set p" "\<not> is_space c" by blast
  then have "c \<in> set (py_join nl parts)" using set_py_join[of p parts nl] by auto
  then show ?thesis using \<open>\<not> is_space c\<close> py_strip_nonempty ec by simp
qed

section \<open>The trace of a file\<close>

lemma requests_append: "requests (a @ b) = requests a @ requests b"
  by (induction a rule: requests.induct) simp_all

lemma writes_append: "writes (a @ b) = writes a @ writes b"
  by (induction a rule: writes.induct) simp_all

lemma extractions_append: "extractions (a @ b) = extractions a @ extractions b"
  by (induction a rule: extractions.induct) simp_all

lemma events_upgrade_code_chunk:
  "\<exists>logged. events (snd (upgrade_code_chunk env chunk ctx st)) =
             events st @ Call (chat_request chunk ctx) # logged
           \<and> requests logged = [] \<and> writes logged = [] \<and> extractions logged = []"
  by (cases "api env (world st) (chat_request chunk ctx)";
      cases "fst (api env (world st) (chat_request chunk ctx))")
     (simp_all add: upgrade_code_chunk_def Let_def emit_def)

lemma trace_upgrade_step:
  "requests (events (snd (upgrade_step env ctx chunk st))) =
     requests (events st) @ [chat_request chunk ctx]"
  "writes (events (snd (upgrade_step env ctx chunk st))) = writes (events st)"
  "extractions (events (snd (upgrade_step env ctx chunk st))) = extractions (events st)"
  using events_upgrade_code_chunk[of env chunk ctx st]
  by (auto simp: upgrade_step_def split_beta requests_append writes_append extractions_append)

lemma trace_upgrade_chunks:
  "requests (events (snd (upgrade_chunks env ctx chunks [] st))) =
     requests (events st) @ map (\<lambda>chunk. chat_request chunk ctx) chunks"
  "writes (events (snd (upgrade_chunks env ctx chunks [] st))) = writes (events st)"
  "extractions (events (snd (upgrade_chunks env ctx chunks [] st))) = extractions (events st)"
  by (induction chunks arbitrary: st)
     (simp_all add: upgrade_chunks_Cons trace_upgrade_step del: upgrade_chunks.simps(2))

lemma trace_write_back:
  "requests (events (snd (write_back env cs_file final_code st))) = requests (events st)"
  "writes (events (snd (write_back env cs_file final_code st))) =
     writes (events st) @ [(cs_file, final_code)]"
  "extractions (events (snd (write_back env cs_file final_code st))) = extractions (events st)"
  by (cases "write_outcome env cs_file final_code";
      simp add: write_back_def Let_def emit_def requests_append writes_append
        extractions_append)+

lemma trace_file_context:
  "requests (events (snd (file_context env original_code chunks st))) = requests (events st)"
  "writes (events (snd (file_context env original_code chunks st))) = writes (events st)"
  "extractions (events (snd (file_context env original_code chunks st))) =
     extractions (events st) @ (if 1 < length chunks then [original_code] else [])"
  by (simp_all add: file_context_def emit_def requests_append writes_append extractions_append)

lemma trace_after_read:
  "requests (events (after_read cs_file st)) = requests (events st)"
  "writes (events (after_read cs_file st)) = writes (events st)"
  "extractions (events (after_read cs_file st)) = extractions (events st)"
  by (simp_all add: emit_def requests_append writes_append extractions_append)

text \<open>
  What \<open>process_file\<close> does for a file that can be read: one request per chunk, each with
  the context of the file; one write, of the joined output of the loop; and one call of
  the extractor, on the whole text, when there is more than one chunk, and none otherwise.
\<close>

lemma trace_process_file:
  assumes "read_text st cs_file = Some original_code"
    and "chunk_text original_code CHUNK_SIZE = Some chunks"
    and "file_context env original_code chunks (after_read cs_file st) = (ctx, st0)"
  shows "\<exists>result st'. process_file env cs_file st = Some (result, st')
           \<and> requests (events st') =
               requests (events st) @ map (\<lambda>chunk. chat_request chunk ctx) chunks
           \<and> writes (events st') =
               writes (events st)
               @ [(cs_file, py_join nl (fst (upgrade_chunks env ctx chunks [] st0)))]
           \<and> extractions (events st') =
               extractions (events st) @ (if 1 < length chunks then [original_code] else [])"
proof -
  let ?U = "upgrade_chunks env ctx chunks [] st0"
  let ?W = "write_back env cs_file (py_join nl (fst ?U)) (snd ?U)"
  have st0: "st0 = snd (file_context env original_code chunks (after_read cs_file st))"
    using assms(3) by simp
  have pf: "process_file env cs_file st = Some (fst ?W, snd ?W)"
    using process_file_eq[OF assms, of] by simp
  have r: "requests (events (snd ?W)) =
             requests (events st) @ map (\<lambda>chunk. chat_request chunk ctx) chunks"
    by (simp only: trace_write_back trace_upgrade_chunks st0 trace_file_context trace_after_read)
  have w: "writes (events (snd ?W)) = writes (events st) @ [(cs_file, py_join nl (fst ?U))]"
    by (simp only: trace_write_back trace_upgrade_chunks st0 trace_file_context trace_after_read)
  have x: "extractions (events (snd ?W)) =
             extractions (events st) @ (if 1 < length chunks then [original_code] else [])"
    by (simp only: trace_write_back trace_upgrade_chunks st0 trace_file_context trace_after_read)
  from pf r w x show ?thesis by blast
qed

section \<open>Facts about the example texts\<close>

lemma read_text_disk:
  "13 \<notin> set content \<Longrightarrow> read_text (disk path content) path = Some content"
  by (simp add: read_text_def disk_def read_newlines_id)

lemma using_at_start:
  "rmatch alnum using_re (py ''using A;'' @ rest) 0 = [(8, [])]"
  by (simp add: using_re_def py_def is_space_def is_word_def Let_def)

lemma findall_using_at_start: "findall_whole alnum using_re (py ''using A;'' @ rest) \<noteq> []"
  unfolding findall_whole_def
  by (subst finditer.simps) (simp add: using_at_start)

lemma long_code_plain: "13 \<notin> set long_code" and length_long_code: "length long_code = 200008"
  by (simp_all add: long_code_def py_def)

lemma code_250k_plain: "13 \<notin> set code_250k" and length_code_250k: "length code_250k = 250000"
  by (simp_all add: code_250k_def py_def)

lemma joined_differs_from_file:
  assumes "1 < length chunks" and "concat chunks = read_newlines content"
    and "sep = nl \<or> sep = [13, 10]"
  shows "write_newlines sep (py_join nl chunks) \<noteq> content"
proof -
  have ne: "chunks \<noteq> []" using assms(1) by auto
  have len: "length (py_join nl chunks) = length (read_newlines content) + (length chunks - 1)"
    using length_py_join[OF ne, of nl] assms(2) by (simp add: nl_def)
  from assms(3) show ?thesis
  proof
    assume sep: "sep = nl"
    show ?thesis
    proof (cases "13 \<in> set content")
      case True
      have "13 \<notin> set (py_join nl chunks)"
        using set_py_join_subset[of nl chunks] read_newlines_no_cr[of content] assms(2)
        by (auto simp: nl_def)
      with True show ?thesis by (auto simp: sep write_newlines_nl)
    next
      case False
      then have "length (py_join nl chunks) = length content + (length chunks - 1)"
        using len by (simp add: read_newlines_id)
      then have "length (py_join nl chunks) \<noteq> length content" using assms(1) by simp
      then show ?thesis by (auto simp: sep write_newlines_nl)
    qed
  next
    assume sep: "sep = [13, 10]"
    have "length content \<le> length (read_newlines content) + count_list (read_newlines content) 10"
      by (rule length_read_newlines)
    also have "count_list (read_newlines content) 10 \<le> count_list (py_join nl chunks) 10"
      using count_py_join[of chunks 10 nl] assms(2) by simp
    finally have "length content < length (py_join nl chunks) + count_list (py_join nl chunks) 10"
      using len assms(1) by simp
    then have "length (write_newlines sep (py_join nl chunks)) \<noteq> length content"
      by (simp add: sep length_write_newlines_crlf)
    then show ?thesis by auto
  qed
qed

section \<open>Properties of the file processor and the driver\<close>

text \<open>
  C2.  Take a file that is read as \<open>original_code\<close> and split into \<open>chunks\<close>, with \<open>ctx\<close> its
  context and \<open>st0\<close> the state in which the loop starts, and the call for its \<open>i\<close>-th chunk,
  made in the state the calls for the chunks before it left.  If the endpoint returns a
  text \<open>r\<close> for it and \<open>r\<close> stripped of surrounding whitespace is exactly \<open>compatible\<close>, then
  the \<open>i\<close>-th entry of \<open>updated_file_content\<close>, the list that is joined and written back,
  is the original \<open>i\<close>-th chunk and not \<open>r\<close>.
\<close>

theorem compatible_keeps_chunk:
  assumes "read_text st cs_file = Some original_code"
    and "chunk_text original_code CHUNK_SIZE = Some chunks"
    and "file_context env original_code chunks (after_read cs_file st) = (ctx, st0)"
    and "i < length chunks"
    and "api env (world (snd (upgrade_chunks env ctx (take i chunks) [] st0)))
           (chat_request (chunks ! i) ctx) = (Content r, w)"
    and "py_strip r = py ''compatible''"
  shows "\<exists>updated_file_content st3.
           upgrade_chunks env ctx chunks [] st0 = (updated_file_content, st3)
           \<and> length updated_file_content = length chunks
           \<and> updated_file_content ! i = chunks ! i
           \<and> process_file env cs_file st =
               Some (write_back env cs_file (py_join nl updated_file_content) st3)"
proof -
  obtain updated st3 where
    run: "upgrade_chunks env ctx chunks [] st0 = (updated, st3)"
    by (cases "upgrade_chunks env ctx chunks [] st0")
  have len: "length updated = length chunks"
    using length_upgrade_chunks[of env ctx chunks st0] run by simp
  have "updated ! i =
      fst (upgrade_step env ctx (chunks ! i)
             (snd (upgrade_chunks env ctx (take i chunks) [] st0)))"
    using upgrade_chunks_nth[OF assms(4), of env ctx st0] run by simp
  also have "\<dots> = chunks ! i"
    by (rule upgrade_step_compatible[OF assms(5) assms(6)])
  finally have nth: "updated ! i = chunks ! i" .
  have "process_file env cs_file st =
      Some (write_back env cs_file (py_join nl updated) st3)"
    using process_file_eq[OF assms(1) assms(2) assms(3)] run by simp
  with run len nth show ?thesis by blast
qed

theorem compatible_keeps_chunk_witness:
  "\<exists>st3. process_file (scripted_env [Content ([32] @ py ''compatible'' @ nl)]) (py ''a.cs'')
            (disk (py ''a.cs'') (py ''int x;''))
          = Some (write_back (scripted_env [Content ([32] @ py ''compatible'' @ nl)]) (py ''a.cs'')
                    (py ''int x;'') st3)"
proof -
  let ?env = "scripted_env [Content ([32] @ py ''compatible'' @ nl)]"
  let ?st = "disk (py ''a.cs'') (py ''int x;'')"
  have rd: "read_text ?st (py ''a.cs'') = Some (py ''int x;'')"
    by (simp add: read_text_def disk_def py_def)
  have ch: "chunk_text (py ''int x;'') CHUNK_SIZE = Some [py ''int x;'']"
    by (rule chunk_text_small) (simp_all add: py_def CHUNK_SIZE_def)
  have cx: "file_context ?env (py ''int x;'') [py ''int x;''] (after_read (py ''a.cs'') ?st)
              = ([], after_read (py ''a.cs'') ?st)"
    by (simp add: file_context_def)
  have i: "(0::nat) < length [py ''int x;'']" by simp
  have call: "api ?env (world (snd (upgrade_chunks ?env [] (take 0 [py ''int x;'']) []
                                     (after_read (py ''a.cs'') ?st))))
      (chat_request ([py ''int x;''] ! 0) []) = (Content ([32] @ py ''compatible'' @ nl), 1)"
    by (simp add: scripted_env_def disk_def emit_def)
  have marker: "py_strip ([32] @ py ''compatible'' @ nl) = py ''compatible''"
    by (simp add: py_strip_def py_def nl_def is_space_def)
  from compatible_keeps_chunk[OF rd ch cx i call marker]
  obtain updated st3 where
    len: "length updated = length [py ''int x;'']"
    and nth: "updated ! 0 = [py ''int x;''] ! 0"
    and pf: "process_file ?env (py ''a.cs'') ?st
               = Some (write_back ?env (py ''a.cs'') (py_join nl updated) st3)"
    by blast
  from len nth have "updated = [py ''int x;'']"
    by (cases updated) simp_all
  with pf show ?thesis by auto
qed

text \<open>
  C3.  Take a file that is read as \<open>original_code\<close> and split into \<open>chunks\<close>, with \<open>ctx\<close> its
  context and \<open>st0\<close> the state in which the loop starts, and let the remote call for its
  \<open>i\<close>-th chunk raise, in the state \<open>st_i\<close> that the calls for the chunks before it left.  Then \<open>upgrade_code_chunk\<close> returns the chunk it was given, and what it
  does to the world is the call and exactly one log record, of level \<open>ERROR\<close>.  The loop
  goes on with whatever chunks follow, from the state the failed call left and with the
  original chunk appended to its output.  The loop over the file yields one output chunk
  per input chunk, the \<open>i\<close>-th being the original one, and \<open>process_file\<close> goes on to write
  the joined output: the failure ends neither the loop nor the processing of the file.
\<close>

theorem remote_failure_keeps_chunk:
  assumes "read_text st cs_file = Some original_code"
    and "chunk_text original_code CHUNK_SIZE = Some chunks"
    and "file_context env original_code chunks (after_read cs_file st) = (ctx, st0)"
    and "i < length chunks"
    and "st_i = snd (upgrade_chunks env ctx (take i chunks) [] st0)"
    and "api env (world st_i) (chat_request (chunks ! i) ctx) = (Raises e, w)"
  shows "upgrade_code_chunk env (chunks ! i) ctx st_i =
           (chunks ! i,
            st_i\<lparr>events := events st_i
                        @ [Call (chat_request (chunks ! i) ctx),
                           Log ERROR (py ''Error calling Azure OpenAI API: '' @ e)],
                 world := w\<rparr>)
         \<and> upgrade_chunks env ctx (chunks ! i # rest) acc st_i =
             upgrade_chunks env ctx rest (acc @ [chunks ! i])
               (snd (upgrade_code_chunk env (chunks ! i) ctx st_i))
         \<and> (\<exists>updated_file_content st3.
               upgrade_chunks env ctx chunks [] st0
                 = (updated_file_content, st3)
               \<and> length updated_file_content = length chunks
               \<and> updated_file_content ! i = chunks ! i
               \<and> process_file env cs_file st =
                   Some (write_back env cs_file (py_join nl updated_file_content) st3))"
proof -
  have a: "upgrade_code_chunk env (chunks ! i) ctx st_i =
           (chunks ! i,
            st_i\<lparr>events := events st_i
                        @ [Call (chat_request (chunks ! i) ctx),
                           Log ERROR (py ''Error calling Azure OpenAI API: '' @ e)],
                 world := w\<rparr>)"
    by (rule upgrade_code_chunk_raises[OF assms(6)])
  have step: "upgrade_step env ctx (chunks ! i) st_i =
                (chunks ! i, snd (upgrade_code_chunk env (chunks ! i) ctx st_i))"
    using upgrade_step_raises(1)[OF assms(6)] a by simp
  have b: "upgrade_chunks env ctx (chunks ! i # rest) acc st_i =
             upgrade_chunks env ctx rest (acc @ [chunks ! i])
               (snd (upgrade_code_chunk env (chunks ! i) ctx st_i))"
    by (simp add: step)
  obtain updated st3 where
    run: "upgrade_chunks env ctx chunks [] st0 = (updated, st3)"
    by (cases "upgrade_chunks env ctx chunks [] st0")
  have len: "length updated = length chunks"
    using length_upgrade_chunks[of env ctx chunks st0] run by simp
  have "updated ! i = fst (upgrade_step env ctx (chunks ! i) st_i)"
    using upgrade_chunks_nth[OF assms(4), of env ctx st0] run assms(5)
    by simp
  then have nth: "updated ! i = chunks ! i" by (simp add: step)
  have pf: "process_file env cs_file st =
      Some (write_back env cs_file (py_join nl updated) st3)"
    using process_file_eq[OF assms(1) assms(2) assms(3)] run by simp
  from run len nth pf have c: "\<exists>updated_file_content st3.
               upgrade_chunks env ctx chunks [] st0
                 = (updated_file_content, st3)
               \<and> length updated_file_content = length chunks
               \<and> updated_file_content ! i = chunks ! i
               \<and> process_file env cs_file st =
                   Some (write_back env cs_file (py_join nl updated_file_content) st3)"
    by blast
  from a b c show ?thesis by (intro conjI)
qed

theorem remote_failure_keeps_chunk_witness:
  "process_file (scripted_env [Raises (py ''timeout''), Content (py ''int y = 2;'')]) (py ''a.cs'')
       (disk (py ''a.cs'') (py ''int x;''))
     = Some (Inr (),
             \<lparr>files = [py ''a.cs'' \<mapsto> py ''int x;''],
              events = [Log INFO (py ''Processing: a.cs''),
                        Read (py ''a.cs''),
                        Call (chat_request (py ''int x;'') []),
                        Log ERROR (py ''Error calling Azure OpenAI API: timeout''),
                        Write (py ''a.cs'') (py ''int x;''),
                        Log INFO (py ''Finished processing: a.cs'')],
              world = 1\<rparr>)
   \<and> fst (upgrade_chunks (scripted_env [Raises (py ''timeout''), Content (py ''int y = 2;'')]) []
            [py ''int x;'', py ''int y;''] []
            (after_read (py ''a.cs'') (disk (py ''a.cs'') (py ''int x;''))))
       = [py ''int x;'', py ''int y = 2;'']"
proof -
  let ?env = "scripted_env [Raises (py ''timeout''), Content (py ''int y = 2;'')]"
  let ?st = "disk (py ''a.cs'') (py ''int x;'')"
  let ?chunks = "[py ''int x;'']"
  have rd: "read_text ?st (py ''a.cs'') = Some (py ''int x;'')"
    by (simp add: read_text_def disk_def py_def)
  have ch: "chunk_text (py ''int x;'') CHUNK_SIZE = Some ?chunks"
    by (rule chunk_text_small) (simp_all add: py_def CHUNK_SIZE_def)
  have cx: "file_context ?env (py ''int x;'') ?chunks (after_read (py ''a.cs'') ?st)
              = ([], after_read (py ''a.cs'') ?st)"
    by (simp add: file_context_def)
  have i: "(0::nat) < length ?chunks" by simp
  have st0: "after_read (py ''a.cs'') ?st
               = snd (upgrade_chunks ?env [] (take 0 ?chunks) [] (after_read (py ''a.cs'') ?st))"
    by simp
  have fail: "api ?env (world (after_read (py ''a.cs'') ?st)) (chat_request (?chunks ! 0) [])
                = (Raises (py ''timeout''), 1)"
    by (simp add: scripted_env_def disk_def emit_def)
  note t = remote_failure_keeps_chunk[OF rd ch cx i st0 fail, of "[py ''int y;'']" "[]"]
  from t have first: "upgrade_code_chunk ?env (py ''int x;'') [] (after_read (py ''a.cs'') ?st) =
           (py ''int x;'',
            (after_read (py ''a.cs'') ?st)\<lparr>events := events (after_read (py ''a.cs'') ?st)
                        @ [Call (chat_request (py ''int x;'') []),
                           Log ERROR (py ''Error calling Azure OpenAI API: '' @ py ''timeout'')],
                 world := 1\<rparr>)"
    by simp
  from t obtain updated st3 where
    run: "upgrade_chunks ?env [] ?chunks [] (after_read (py ''a.cs'') ?st) = (updated, st3)"
    and pf: "process_file ?env (py ''a.cs'') ?st
               = Some (write_back ?env (py ''a.cs'') (py_join nl updated) st3)"
    by blast
  have step: "upgrade_step ?env [] (py ''int x;'') (after_read (py ''a.cs'') ?st)
      = (py ''int x;'',
         (after_read (py ''a.cs'') ?st)\<lparr>events := events (after_read (py ''a.cs'') ?st)
                        @ [Call (chat_request (py ''int x;'') []),
                           Log ERROR (py ''Error calling Azure OpenAI API: '' @ py ''timeout'')],
                 world := 1\<rparr>)"
    by (simp add: upgrade_step_def first)
  from run have u: "updated = [py ''int x;'']" and s3: "st3 =
         (after_read (py ''a.cs'') ?st)\<lparr>events := events (after_read (py ''a.cs'') ?st)
                        @ [Call (chat_request (py ''int x;'') []),
                           Log ERROR (py ''Error calling Azure OpenAI API: '' @ py ''timeout'')],
                 world := 1\<rparr>"
    by (simp_all add: step)
  have whole: "process_file ?env (py ''a.cs'') ?st
     = Some (Inr (),
             \<lparr>files = [py ''a.cs'' \<mapsto> py ''int x;''],
              events = [Log INFO (py ''Processing: a.cs''),
                        Read (py ''a.cs''),
                        Call (chat_request (py ''int x;'') []),
                        Log ERROR (py ''Error calling Azure OpenAI API: timeout''),
                        Write (py ''a.cs'') (py ''int x;''),
                        Log INFO (py ''Finished processing: a.cs'')],
              world = 1\<rparr>)"
    unfolding pf u s3
    by (simp add: write_back_def scripted_env_def disk_def emit_def py_def write_newlines_nl)
  have second: "api ?env (world (snd (upgrade_code_chunk ?env (py ''int x;'') []
                                       (after_read (py ''a.cs'') ?st))))
                  (chat_request (py ''int y;'') []) = (Content (py ''int y = 2;''), 2)"
    unfolding first by (simp add: scripted_env_def)
  have "py_strip (py ''int y = 2;'') \<noteq> py ''compatible''"
    by (simp add: py_strip_def py_def is_space_def)
  then have "fst (upgrade_chunks ?env [] [py ''int x;'', py ''int y;''] []
               (after_read (py ''a.cs'') ?st)) = [py ''int x;'', py ''int y = 2;'']"
    using t second by (simp add: upgrade_step_def upgrade_code_chunk_content)
  with whole show ?thesis by (intro conjI)
qed
text \<open>
  C4.  A file that is read as a text of 250000 characters is split, at the chunk size
  200000, into exactly two chunks of 200000 and 50000 characters.  The extractor is called
  exactly once while the file is processed, on the whole text: the trace of
  \<open>process_file\<close> gains one \<open>Extract\<close> event, and its argument is \<open>original_code\<close>.  The
  requests sent are two, one per chunk and in the order of the chunks, and both carry the
  value \<open>ctx\<close> of that one call.  The text handed to the one write is the result for the
  first chunk, a newline, and the result for the second chunk, in this order.  When the
  write succeeds the file holds this text with every newline written as the line separator
  of the system, which is the text itself where the separator is the newline.
\<close>

theorem two_chunk_file:
  assumes "read_text st cs_file = Some original_code"
    and "length original_code = 250000"
  shows "let c1 = take 200000 original_code;
             c2 = drop 200000 original_code;
             ctx = extract_context (isalnum env) original_code;
             st0 = emit (Extract original_code) (after_read cs_file st);
             (u1, s1) = upgrade_code_chunk env c1 ctx st0;
             r1 = (if py_strip u1 = py ''compatible'' then c1 else u1);
             (u2, s2) = upgrade_code_chunk env c2 ctx s1;
             r2 = (if py_strip u2 = py ''compatible'' then c2 else u2)
         in chunk_text original_code CHUNK_SIZE = Some [c1, c2]
            \<and> length c1 = 200000 \<and> length c2 = 50000
            \<and> file_context env original_code [c1, c2] (after_read cs_file st) = (ctx, st0)
            \<and> process_file env cs_file st = Some (write_back env cs_file (r1 @ nl @ r2) s2)
            \<and> (\<exists>result st'. process_file env cs_file st = Some (result, st')
                  \<and> extractions (events st') = extractions (events st) @ [original_code]
                  \<and> requests (events st') =
                      requests (events st) @ [chat_request c1 ctx, chat_request c2 ctx]
                  \<and> writes (events st') = writes (events st) @ [(cs_file, r1 @ nl @ r2)])
            \<and> (write_outcome env cs_file (r1 @ nl @ r2) = None \<longrightarrow>
                 (\<exists>st4. process_file env cs_file st = Some (Inr (), st4)
                        \<and> files st4 cs_file = Some (write_newlines (linesep env) (r1 @ nl @ r2))
                        \<and> (linesep env = nl \<longrightarrow> files st4 cs_file = Some (r1 @ nl @ r2))))"
proof -
  define c1 where "c1 = take 200000 original_code"
  define c2 where "c2 = drop 200000 original_code"
  define ctx where "ctx = extract_context (isalnum env) original_code"
  define st0 where "st0 = emit (Extract original_code) (after_read cs_file st)"
  obtain u1 s1 where call1: "upgrade_code_chunk env c1 ctx st0 = (u1, s1)"
    by (cases "upgrade_code_chunk env c1 ctx st0")
  obtain u2 s2 where call2: "upgrade_code_chunk env c2 ctx s1 = (u2, s2)"
    by (cases "upgrade_code_chunk env c2 ctx s1")
  define r1 where "r1 = (if py_strip u1 = py ''compatible'' then c1 else u1)"
  define r2 where "r2 = (if py_strip u2 = py ''compatible'' then c2 else u2)"
  have big: "(0::int) < 200000" "200000 < int (length original_code)"
    "int (length original_code) \<le> 2 * 200000"
    by (simp_all add: assms(2))
  have ch: "chunk_text original_code CHUNK_SIZE = Some [c1, c2]"
    using chunk_text_two[OF big] by (simp add: c1_def c2_def CHUNK_SIZE_def)
  have l1: "length c1 = 200000" and l2: "length c2 = 50000"
    by (simp_all add: c1_def c2_def assms(2))
  have cx: "file_context env original_code [c1, c2] (after_read cs_file st) = (ctx, st0)"
    by (simp add: file_context_def ctx_def st0_def)
  have loop: "upgrade_chunks env ctx [c1, c2] [] st0 = ([r1, r2], s2)"
    by (simp add: upgrade_step_def call1 call2 r1_def r2_def)
  have pf: "process_file env cs_file st = Some (write_back env cs_file (r1 @ nl @ r2) s2)"
    using process_file_eq[OF assms(1) ch cx]
    by (simp only: loop fst_conv snd_conv py_join.simps)
  have tr: "\<exists>result st'. process_file env cs_file st = Some (result, st')
                  \<and> extractions (events st') = extractions (events st) @ [original_code]
                  \<and> requests (events st') =
                      requests (events st) @ [chat_request c1 ctx, chat_request c2 ctx]
                  \<and> writes (events st') = writes (events st) @ [(cs_file, r1 @ nl @ r2)]"
    using trace_process_file[OF assms(1) ch cx, unfolded loop fst_conv py_join.simps]
    by auto
  have ok: "write_outcome env cs_file (r1 @ nl @ r2) = None \<longrightarrow>
                 (\<exists>st4. process_file env cs_file st = Some (Inr (), st4)
                        \<and> files st4 cs_file = Some (write_newlines (linesep env) (r1 @ nl @ r2))
                        \<and> (linesep env = nl \<longrightarrow> files st4 cs_file = Some (r1 @ nl @ r2)))"
    by (simp add: pf write_back_ok write_newlines_nl)
  have goal: "chunk_text original_code CHUNK_SIZE = Some [c1, c2]
            \<and> length c1 = 200000 \<and> length c2 = 50000
            \<and> file_context env original_code [c1, c2] (after_read cs_file st) = (ctx, st0)
            \<and> process_file env cs_file st = Some (write_back env cs_file (r1 @ nl @ r2) s2)
            \<and> (\<exists>result st'. process_file env cs_file st = Some (result, st')
                  \<and> extractions (events st') = extractions (events st) @ [original_code]
                  \<and> requests (events st') =
                      requests (events st) @ [chat_request c1 ctx, chat_request c2 ctx]
                  \<and> writes (events st') = writes (events st) @ [(cs_file, r1 @ nl @ r2)])
            \<and> (write_outcome env cs_file (r1 @ nl @ r2) = None \<longrightarrow>
                 (\<exists>st4. process_file env cs_file st = Some (Inr (), st4)
                        \<and> files st4 cs_file = Some (write_newlines (linesep env) (r1 @ nl @ r2))
                        \<and> (linesep env = nl \<longrightarrow> files st4 cs_file = Some (r1 @ nl @ r2))))"
    using ch l1 l2 cx pf tr ok by (intro conjI)
  show ?thesis
    unfolding Let_def c1_def[symmetric] c2_def[symmetric] ctx_def[symmetric] st0_def[symmetric]
      call1 call2 prod.case r1_def[symmetric] r2_def[symmetric]
    by (rule goal)
qed

theorem two_chunk_file_witness:
  "length code_250k = 250000
   \<and> chunk_text code_250k CHUNK_SIZE = Some [take 200000 code_250k, drop 200000 code_250k]
   \<and> extract_context (isalnum (scripted_env [Content (py ''A''), Content (py ''B'')])) code_250k
       \<noteq> []
   \<and> (\<exists>st4. process_file (scripted_env [Content (py ''A''), Content (py ''B'')]) (py ''a.cs'')
               (disk (py ''a.cs'') code_250k) = Some (Inr (), st4)
         \<and> files st4 (py ''a.cs'') = Some (py ''A'' @ nl @ py ''B'')
         \<and> extractions (events st4) = [code_250k]
         \<and> requests (events st4) =
             [chat_request (take 200000 code_250k)
                (extract_context (isalnum (scripted_env [Content (py ''A''), Content (py ''B'')]))
                   code_250k),
              chat_request (drop 200000 code_250k)
                (extract_context (isalnum (scripted_env [Content (py ''A''), Content (py ''B'')]))
                   code_250k)]
         \<and> writes (events st4) = [(py ''a.cs'', py ''A'' @ nl @ py ''B'')])"
proof -
  let ?env = "scripted_env [Content (py ''A''), Content (py ''B'')]"
  let ?st = "disk (py ''a.cs'') code_250k"
  have rd: "read_text ?st (py ''a.cs'') = Some code_250k"
    by (rule read_text_disk[OF code_250k_plain])
  note len = length_code_250k
  define c1 where "c1 = take 200000 code_250k"
  define c2 where "c2 = drop 200000 code_250k"
  define ctx where "ctx = extract_context (isalnum ?env) code_250k"
  define st0 where "st0 = emit (Extract code_250k) (after_read (py ''a.cs'') ?st)"
  define s1 where "s1 = st0\<lparr>events := events st0 @ [Call (chat_request c1 ctx)], world := 1\<rparr>"
  define s2 where "s2 = s1\<lparr>events := events s1 @ [Call (chat_request c2 ctx)], world := 2\<rparr>"
  have w0: "world st0 = 0" by (simp add: st0_def emit_def disk_def)
  have a0: "api ?env (world st0) (chat_request c1 ctx) = (Content (py ''A''), 1)"
    unfolding w0 by (simp add: scripted_env_def)
  have uc1: "upgrade_code_chunk ?env c1 ctx st0 = (py ''A'', s1)"
    unfolding s1_def by (rule upgrade_code_chunk_content[OF a0])
  have a1: "api ?env (world s1) (chat_request c2 ctx) = (Content (py ''B''), 2)"
    by (simp add: s1_def scripted_env_def)
  have uc2: "upgrade_code_chunk ?env c2 ctx s1 = (py ''B'', s2)"
    unfolding s2_def by (rule upgrade_code_chunk_content[OF a1])
  have no: "py_strip (py ''A'') \<noteq> py ''compatible''" "py_strip (py ''B'') \<noteq> py ''compatible''"
    by (simp_all add: py_strip_def py_def is_space_def)
  have keep: "(if py_strip (py ''A'') = py ''compatible'' then c1 else py ''A'') = py ''A''"
    "(if py_strip (py ''B'') = py ''compatible'' then c2 else py ''B'') = py ''B''"
    using no by simp_all
  have wr: "write_outcome ?env (py ''a.cs'') (py ''A'' @ nl @ py ''B'') = None"
    and ls: "linesep ?env = nl"
    by (simp_all add: scripted_env_def)
  note t = two_chunk_file[OF rd len, of ?env, unfolded Let_def,
      folded c1_def c2_def ctx_def st0_def, unfolded uc1 uc2 prod.case keep]
  from t have ch: "chunk_text code_250k CHUNK_SIZE = Some [c1, c2]" by (rule conjunct1)
  note tr = t[THEN conjunct2, THEN conjunct2, THEN conjunct2, THEN conjunct2, THEN conjunct2,
      THEN conjunct1]
  note ok = t[THEN conjunct2, THEN conjunct2, THEN conjunct2, THEN conjunct2, THEN conjunct2,
      THEN conjunct2, THEN mp, OF wr]
  from ok obtain st4 where
    p: "process_file ?env (py ''a.cs'') ?st = Some (Inr (), st4)"
    and f: "linesep ?env = nl \<longrightarrow> files st4 (py ''a.cs'') = Some (py ''A'' @ nl @ py ''B'')"
    by (elim exE conjE)
  from f ls have f': "files st4 (py ''a.cs'') = Some (py ''A'' @ nl @ py ''B'')" by (rule mp)
  from tr obtain result st' where
    q: "process_file ?env (py ''a.cs'') ?st = Some (result, st')"
    and x: "extractions (events st') = extractions (events ?st) @ [code_250k]"
    and r: "requests (events st') = requests (events ?st) @ [chat_request c1 ctx, chat_request c2 ctx]"
    and w: "writes (events st') = writes (events ?st) @ [(py ''a.cs'', py ''A'' @ nl @ py ''B'')]"
    by (elim exE conjE)
  from p q have same: "st' = st4" by simp
  have ev: "events ?st = []" by (simp add: disk_def)
  have x': "extractions (events st4) = [code_250k]"
    using x by (simp add: same ev)
  have r': "requests (events st4) = [chat_request c1 ctx, chat_request c2 ctx]"
    using r by (simp add: same ev)
  have w': "writes (events st4) = [(py ''a.cs'', py ''A'' @ nl @ py ''B'')]"
    using w by (simp add: same ev)
  have nonempty: "ctx \<noteq> []"
    unfolding ctx_def
    by (rule extract_context_nonempty)
       (simp add: code_250k_def findall_using_at_start)
  from p f' x' r' w' have run: "\<exists>st4. process_file ?env (py ''a.cs'') ?st = Some (Inr (), st4)
         \<and> files st4 (py ''a.cs'') = Some (py ''A'' @ nl @ py ''B'')
         \<and> extractions (events st4) = [code_250k]
         \<and> requests (events st4) = [chat_request c1 ctx, chat_request c2 ctx]
         \<and> writes (events st4) = [(py ''a.cs'', py ''A'' @ nl @ py ''B'')]"
    by (intro exI[of _ st4] conjI)
  from len ch nonempty run show ?thesis
    unfolding c1_def c2_def ctx_def by (intro conjI)
qed

text \<open>
  C5, as amended.  Take a file whose text is read as \<open>original_code\<close> and split into exactly
  one chunk, and whose remote call returns the literal text \<open>compatible\<close>.  Then the chunk
  is the whole text, no context is extracted, and the text handed to the write is exactly
  the text that was read: joining one chunk adds no separator.  When the write succeeds,
  the file holds that text with every newline written as the line separator of the
  system; when the separator is the newline itself and the file held no carriage return,
  the file system maps every path to what it held before.
\<close>

theorem single_compatible_chunk_text_unchanged:
  assumes "files st cs_file = Some content"
    and "original_code = read_newlines content"
    and "chunk_text original_code CHUNK_SIZE = Some [chunk]"
    and "api env (world st) (chat_request chunk []) = (Content (py ''compatible''), w)"
  shows "chunk = original_code
         \<and> file_context env original_code [chunk] (after_read cs_file st)
             = ([], after_read cs_file st)
         \<and> (\<exists>result st'. process_file env cs_file st = Some (result, st')
               \<and> writes (events st') = writes (events st) @ [(cs_file, original_code)])
         \<and> (write_outcome env cs_file original_code = None \<longrightarrow>
              (\<exists>st4. process_file env cs_file st = Some (Inr (), st4)
                \<and> files st4 = (files st)(cs_file \<mapsto> write_newlines (linesep env) original_code)
                \<and> (linesep env = nl \<and> 13 \<notin> set content \<longrightarrow> files st4 = files st)))"
proof -
  have rd: "read_text st cs_file = Some original_code"
    by (simp add: read_text_def assms(1,2))
  have same: "chunk = original_code"
    using chunk_text_concat[OF CHUNK_SIZE_pos assms(3)] by simp
  have cx: "file_context env original_code [chunk] (after_read cs_file st)
              = ([], after_read cs_file st)"
    by (simp add: file_context_def)
  have strip: "py_strip (py ''compatible'') = py ''compatible''"
    by (simp add: py_strip_def py_def is_space_def)
  have call: "api env (world (after_read cs_file st)) (chat_request chunk [])
                = (Content (py ''compatible''), w)"
    using assms(4) by (simp add: world_emit)
  have step: "fst (upgrade_step env [] chunk (after_read cs_file st)) = chunk"
    by (rule upgrade_step_compatible[OF call strip])
  define st3 where "st3 = snd (upgrade_chunks env [] [chunk] [] (after_read cs_file st))"
  have out: "fst (upgrade_chunks env [] [chunk] [] (after_read cs_file st)) = [chunk]"
    using step by (simp add: upgrade_chunks_Cons del: upgrade_chunks.simps(2))
  have pf: "process_file env cs_file st = Some (write_back env cs_file original_code st3)"
    using process_file_eq[OF rd assms(3) cx] out same by (simp add: st3_def)
  have fs: "files st3 = files st"
    unfolding st3_def by (simp only: files_upgrade_chunks files_emit)
  from trace_process_file[OF rd assms(3) cx] out same
  have tr: "\<exists>result st'. process_file env cs_file st = Some (result, st')
               \<and> writes (events st') = writes (events st) @ [(cs_file, original_code)]"
    by auto
  have ok: "write_outcome env cs_file original_code = None \<longrightarrow>
              (\<exists>st4. process_file env cs_file st = Some (Inr (), st4)
                \<and> files st4 = (files st)(cs_file \<mapsto> write_newlines (linesep env) original_code)
                \<and> (linesep env = nl \<and> 13 \<notin> set content \<longrightarrow> files st4 = files st))"
  proof
    assume wr: "write_outcome env cs_file original_code = None"
    define st4 where "st4 = snd (write_back env cs_file original_code st3)"
    have p: "process_file env cs_file st = Some (Inr (), st4)"
      using pf by (simp add: st4_def write_back_ok[OF wr])
    have f: "files st4 = (files st)(cs_file \<mapsto> write_newlines (linesep env) original_code)"
      by (simp add: st4_def write_back_ok[OF wr] fs)
    have "linesep env = nl \<and> 13 \<notin> set content \<longrightarrow> files st4 = files st"
    proof
      assume h: "linesep env = nl \<and> 13 \<notin> set content"
      then have "write_newlines (linesep env) original_code = content"
        by (simp add: write_newlines_nl assms(2) read_newlines_id)
      then show "files st4 = files st"
        using f assms(1) by (simp add: map_upd_triv)
    qed
    with p f show "\<exists>st4. process_file env cs_file st = Some (Inr (), st4)
                \<and> files st4 = (files st)(cs_file \<mapsto> write_newlines (linesep env) original_code)
                \<and> (linesep env = nl \<and> 13 \<notin> set content \<longrightarrow> files st4 = files st)"
      by blast
  qed
  from same cx tr ok show ?thesis by (intro conjI)
qed

theorem single_compatible_chunk_text_unchanged_witness:
  "\<exists>st4. process_file (scripted_env [Content (py ''compatible'')]) (py ''a.cs'')
            (disk (py ''a.cs'') (py ''int x;'')) = Some (Inr (), st4)
         \<and> files st4 = [py ''a.cs'' \<mapsto> py ''int x;'']"
proof -
  let ?env = "scripted_env [Content (py ''compatible'')]"
  let ?st = "disk (py ''a.cs'') (py ''int x;'')"
  have fl: "files ?st (py ''a.cs'') = Some (py ''int x;'')"
    by (simp add: disk_def)
  have plain: "13 \<notin> set (py ''int x;'')" by (simp add: py_def)
  have rn: "py ''int x;'' = read_newlines (py ''int x;'')"
    using read_newlines_id[OF plain] by simp
  have ch: "chunk_text (py ''int x;'') CHUNK_SIZE = Some [py ''int x;'']"
    by (rule chunk_text_small) (simp_all add: py_def CHUNK_SIZE_def)
  have call: "api ?env (world ?st) (chat_request (py ''int x;'') [])
                = (Content (py ''compatible''), 1)"
    by (simp add: scripted_env_def disk_def)
  have wr: "write_outcome ?env (py ''a.cs'') (py ''int x;'') = None"
    and ls: "linesep ?env = nl"
    by (simp_all add: scripted_env_def)
  from single_compatible_chunk_text_unchanged[OF fl rn ch call] wr ls plain
  have "\<exists>st4. process_file ?env (py ''a.cs'') ?st = Some (Inr (), st4) \<and> files st4 = files ?st"
    by blast
  then show ?thesis by (simp add: disk_def)
qed

text \<open>
  C5 as it is stated, that the content written back equals the original content of the
  file exactly, fails for a file with a CRLF line end on a POSIX system: the file holds
  \<open>a\r\nb\<close>, it is read as the one chunk \<open>a\nb\<close>, the endpoint answers \<open>compatible\<close>, and
  the file then holds \<open>a\nb\<close>.
\<close>

theorem crlf_file_is_rewritten:
  "chunk_text (read_newlines [97, 13, 10, 98]) CHUNK_SIZE = Some [[97, 10, 98]]
   \<and> process_file (scripted_env [Content (py ''compatible'')]) (py ''a.cs'')
         (disk (py ''a.cs'') [97, 13, 10, 98])
       = Some (Inr (),
               \<lparr>files = [py ''a.cs'' \<mapsto> [97, 10, 98]],
                events = [Log INFO (py ''Processing: a.cs''),
                          Read (py ''a.cs''),
                          Call (chat_request [97, 10, 98] []),
                          Write (py ''a.cs'') [97, 10, 98],
                          Log INFO (py ''Finished processing: a.cs'')],
                world = 1\<rparr>)
   \<and> [97, 10, 98] \<noteq> [97, 13, 10, 98 :: nat]"
proof -
  let ?env = "scripted_env [Content (py ''compatible'')]"
  let ?st = "disk (py ''a.cs'') [97, 13, 10, 98]"
  have rd: "read_text ?st (py ''a.cs'') = Some [97, 10, 98]"
    by (simp add: read_text_def disk_def)
  have ch: "chunk_text [97, 10, 98 :: nat] CHUNK_SIZE = Some [[97, 10, 98]]"
    by (rule chunk_text_small) (simp_all add: CHUNK_SIZE_def)
  have cx: "file_context ?env [97, 10, 98] [[97, 10, 98]] (after_read (py ''a.cs'') ?st)
              = ([], after_read (py ''a.cs'') ?st)"
    by (simp add: file_context_def)
  have call: "api ?env (world (after_read (py ''a.cs'') ?st)) (chat_request [97, 10, 98] [])
                = (Content (py ''compatible''), 1)"
    by (simp add: scripted_env_def disk_def emit_def)
  have strip: "py_strip (py ''compatible'') = py ''compatible''"
    by (simp add: py_strip_def py_def is_space_def)
  have loop: "upgrade_chunks ?env [] [[97, 10, 98]] [] (after_read (py ''a.cs'') ?st)
      = ([[97, 10, 98]],
         (after_read (py ''a.cs'') ?st)\<lparr>events := events (after_read (py ''a.cs'') ?st)
             @ [Call (chat_request [97, 10, 98] [])], world := 1\<rparr>)"
    by (simp add: upgrade_step_def upgrade_code_chunk_content[OF call] strip)
  have "process_file ?env (py ''a.cs'') ?st
       = Some (Inr (),
               \<lparr>files = [py ''a.cs'' \<mapsto> [97, 10, 98]],
                events = [Log INFO (py ''Processing: a.cs''),
                          Read (py ''a.cs''),
                          Call (chat_request [97, 10, 98] []),
                          Write (py ''a.cs'') [97, 10, 98],
                          Log INFO (py ''Finished processing: a.cs'')],
                world = 1\<rparr>)"
    unfolding process_file_eq[OF rd ch cx] loop
    by (simp add: write_back_def scripted_env_def disk_def emit_def py_def write_newlines_nl)
  moreover have "chunk_text (read_newlines [97, 13, 10, 98]) CHUNK_SIZE = Some [[97, 10, 98]]"
    using ch by simp
  ultimately show ?thesis by simp
qed

text \<open>
  C6.  Take a file that is read as \<open>original_code\<close> and split into \<open>chunks\<close>, and let \<open>ctx\<close>
  be the context that \<open>process_file\<close> computes for it.  The requests that \<open>process_file\<close>
  sends are one per chunk, in order, each built from the chunk and from this same \<open>ctx\<close>.
  It is empty when there is exactly one chunk.  When there is more than one chunk and at
  least one of the four patterns (using directive, namespace, type declaration, method
  signature) matches in the text, it is not empty.
\<close>

theorem context_only_for_many_chunks:
  assumes "read_text st cs_file = Some original_code"
    and "chunk_text original_code CHUNK_SIZE = Some chunks"
    and "file_context env original_code chunks (after_read cs_file st) = (ctx, st0)"
  shows "(\<exists>result st'. process_file env cs_file st = Some (result, st')
            \<and> requests (events st') =
                requests (events st) @ map (\<lambda>chunk. chat_request chunk ctx) chunks)
         \<and> (length chunks = 1 \<longrightarrow> ctx = [])
         \<and> (1 < length chunks
              \<and> (findall_whole (isalnum env) using_re original_code \<noteq> []
                  \<or> search_groups (isalnum env) namespace_re original_code \<noteq> None
                  \<or> findall_groups (isalnum env) class_re original_code \<noteq> []
                  \<or> findall_groups (isalnum env) method_re original_code \<noteq> [])
              \<longrightarrow> ctx \<noteq> [])"
proof -
  have cx: "ctx = (if 1 < length chunks then extract_context (isalnum env) original_code else [])"
    using file_context_fst[of env original_code chunks "after_read cs_file st"] assms(3)
    by simp
  have a: "\<exists>result st'. process_file env cs_file st = Some (result, st')
            \<and> requests (events st') =
                requests (events st) @ map (\<lambda>chunk. chat_request chunk ctx) chunks"
    using trace_process_file[OF assms] by blast
  have b: "length chunks = 1 \<longrightarrow> ctx = []"
    by (simp add: cx)
  have c: "1 < length chunks
              \<and> (findall_whole (isalnum env) using_re original_code \<noteq> []
                  \<or> search_groups (isalnum env) namespace_re original_code \<noteq> None
                  \<or> findall_groups (isalnum env) class_re original_code \<noteq> []
                  \<or> findall_groups (isalnum env) method_re original_code \<noteq> [])
              \<longrightarrow> ctx \<noteq> []"
    using extract_context_nonempty[of "isalnum env" original_code]
    by (auto simp: cx)
  from a b c show ?thesis by (intro conjI)
qed

theorem context_only_for_many_chunks_witness:
  "fst (file_context (scripted_env []) (py ''int x;'') [py ''int x;'']
          (after_read (py ''a.cs'') (disk (py ''a.cs'') (py ''int x;'')))) = []
   \<and> chunk_text long_code CHUNK_SIZE = Some [take 200000 long_code, drop 200000 long_code]
   \<and> findall_whole (isalnum (scripted_env [])) using_re long_code \<noteq> []
   \<and> fst (file_context (scripted_env []) long_code [take 200000 long_code, drop 200000 long_code]
            (after_read (py ''b.cs'') (disk (py ''b.cs'') long_code))) \<noteq> []"
proof -
  let ?env = "scripted_env []"
  have rd1: "read_text (disk (py ''a.cs'') (py ''int x;'')) (py ''a.cs'') = Some (py ''int x;'')"
    by (rule read_text_disk) (simp add: py_def)
  have ch1: "chunk_text (py ''int x;'') CHUNK_SIZE = Some [py ''int x;'']"
    by (rule chunk_text_small) (simp_all add: py_def CHUNK_SIZE_def)
  from context_only_for_many_chunks[OF rd1 ch1 surjective_pairing, of ?env]
  have one: "fst (file_context ?env (py ''int x;'') [py ''int x;'']
                    (after_read (py ''a.cs'') (disk (py ''a.cs'') (py ''int x;'')))) = []"
    by simp
  let ?chunks = "[take 200000 long_code, drop 200000 long_code]"
  have rd2: "read_text (disk (py ''b.cs'') long_code) (py ''b.cs'') = Some long_code"
    by (rule read_text_disk[OF long_code_plain])
  have ch2: "chunk_text long_code CHUNK_SIZE = Some ?chunks"
    using chunk_text_two[of CHUNK_SIZE long_code] by (simp add: CHUNK_SIZE_def length_long_code)
  have found: "findall_whole (isalnum ?env) using_re long_code \<noteq> []"
    unfolding long_code_def by (rule findall_using_at_start)
  from context_only_for_many_chunks[OF rd2 ch2 surjective_pairing, of ?env] found
  have many: "fst (file_context ?env long_code ?chunks
                     (after_read (py ''b.cs'') (disk (py ''b.cs'') long_code))) \<noteq> []"
    by simp
  from one ch2 found many show ?thesis by (intro conjI)
qed

text \<open>
  C7.  Take a file that is read as \<open>original_code\<close> and split into \<open>n > 1\<close> chunks, every
  remote call of which returns a text that is \<open>compatible\<close> after stripping.  Then the one
  text that \<open>process_file\<close> hands to a write for the file is the chunks joined by a newline:
  the original text, which is the concatenation of the chunks, with one newline at each of
  the \<open>n - 1\<close> chunk boundaries.  Its length is the original length plus \<open>n - 1\<close>, and it
  differs from the original text.  When the write succeeds the file holds this text, with
  every newline written as the line separator of the system, and for both separators in
  use, \<open>\n\<close> and \<open>\r\n\<close>, what the file holds differs from what it held before.
\<close>

theorem all_compatible_inserts_newlines:
  assumes "files st cs_file = Some content"
    and "original_code = read_newlines content"
    and "chunk_text original_code CHUNK_SIZE = Some chunks"
    and "1 < length chunks"
    and "file_context env original_code chunks (after_read cs_file st) = (ctx, st0)"
    and "\<forall>i<length chunks. \<exists>r w.
           api env (world (snd (upgrade_chunks env ctx (take i chunks) [] st0)))
             (chat_request (chunks ! i) ctx) = (Content r, w)
           \<and> py_strip r = py ''compatible''"
  shows "(\<exists>st3. process_file env cs_file st =
                  Some (write_back env cs_file (py_join nl chunks) st3))
         \<and> (\<exists>result st'. process_file env cs_file st = Some (result, st')
               \<and> writes (events st') = writes (events st) @ [(cs_file, py_join nl chunks)])
         \<and> concat chunks = original_code
         \<and> length (py_join nl chunks) = length original_code + (length chunks - 1)
         \<and> py_join nl chunks \<noteq> original_code
         \<and> (write_outcome env cs_file (py_join nl chunks) = None \<longrightarrow>
              (\<exists>st4. process_file env cs_file st = Some (Inr (), st4)
                \<and> files st4 cs_file = Some (write_newlines (linesep env) (py_join nl chunks))
                \<and> (linesep env = nl \<or> linesep env = [13, 10] \<longrightarrow>
                     files st4 cs_file \<noteq> files st cs_file)))"
proof -
  have rd: "read_text st cs_file = Some original_code"
    by (simp add: read_text_def assms(1,2))
  have out: "fst (upgrade_chunks env ctx chunks [] st0) = chunks"
    by (rule upgrade_chunks_all_compatible[OF assms(6)])
  define st3 where "st3 = snd (upgrade_chunks env ctx chunks [] st0)"
  have pf: "process_file env cs_file st = Some (write_back env cs_file (py_join nl chunks) st3)"
    using process_file_eq[OF rd assms(3) assms(5)] out by (simp add: st3_def)
  then have a: "\<exists>st3. process_file env cs_file st =
                  Some (write_back env cs_file (py_join nl chunks) st3)"
    by blast
  from trace_process_file[OF rd assms(3) assms(5)] out
  have b: "\<exists>result st'. process_file env cs_file st = Some (result, st')
               \<and> writes (events st') = writes (events st) @ [(cs_file, py_join nl chunks)]"
    by auto
  have cat: "concat chunks = original_code"
    by (rule chunk_text_concat[OF CHUNK_SIZE_pos assms(3)])
  have "chunks \<noteq> []" using assms(4) by auto
  then have len: "length (py_join nl chunks) = length original_code + (length chunks - 1)"
    using length_py_join[of chunks nl] cat by (simp add: nl_def)
  then have "length (py_join nl chunks) \<noteq> length original_code"
    using assms(4) by simp
  then have ne: "py_join nl chunks \<noteq> original_code" by auto
  have ok: "write_outcome env cs_file (py_join nl chunks) = None \<longrightarrow>
              (\<exists>st4. process_file env cs_file st = Some (Inr (), st4)
                \<and> files st4 cs_file = Some (write_newlines (linesep env) (py_join nl chunks))
                \<and> (linesep env = nl \<or> linesep env = [13, 10] \<longrightarrow>
                     files st4 cs_file \<noteq> files st cs_file))"
  proof
    assume wr: "write_outcome env cs_file (py_join nl chunks) = None"
    define st4 where "st4 = snd (write_back env cs_file (py_join nl chunks) st3)"
    have p: "process_file env cs_file st = Some (Inr (), st4)"
      using pf by (simp add: st4_def write_back_ok[OF wr])
    have f: "files st4 cs_file = Some (write_newlines (linesep env) (py_join nl chunks))"
      by (simp add: st4_def write_back_ok[OF wr])
    have "linesep env = nl \<or> linesep env = [13, 10] \<longrightarrow> files st4 cs_file \<noteq> files st cs_file"
      using joined_differs_from_file[OF assms(4), of content "linesep env"] cat assms(1,2) f
      by auto
    with p f show "\<exists>st4. process_file env cs_file st = Some (Inr (), st4)
                \<and> files st4 cs_file = Some (write_newlines (linesep env) (py_join nl chunks))
                \<and> (linesep env = nl \<or> linesep env = [13, 10] \<longrightarrow>
                     files st4 cs_file \<noteq> files st cs_file)"
      by blast
  qed
  from a b cat len ne ok show ?thesis by (intro conjI)
qed

theorem all_compatible_inserts_newlines_witness:
  "(\<exists>st4. process_file (scripted_env [Content (py ''compatible''), Content (py ''compatible'' @ nl)])
             (py ''a.cs'') (disk (py ''a.cs'') (replicate 200000 120 @ [121]))
           = Some (Inr (), st4)
         \<and> files st4 (py ''a.cs'') = Some (replicate 200000 120 @ nl @ [121])
         \<and> writes (events st4) = [(py ''a.cs'', replicate 200000 120 @ nl @ [121])])
   \<and> length (replicate 200000 120 @ nl @ [121 :: nat]) = 200002
   \<and> replicate 200000 120 @ nl @ [121] \<noteq> replicate 200000 120 @ [121 :: nat]"
proof -
  let ?env = "scripted_env [Content (py ''compatible''), Content (py ''compatible'' @ nl)]"
  let ?code = "replicate 200000 120 @ [121 :: nat]"
  let ?st = "disk (py ''a.cs'') ?code"
  let ?chunks = "[replicate 200000 120, [121 :: nat]]"
  define ctx where "ctx = extract_context (isalnum ?env) ?code"
  define st0 where "st0 = emit (Extract ?code) (after_read (py ''a.cs'') ?st)"
  have fl: "files ?st (py ''a.cs'') = Some ?code"
    by (simp add: disk_def)
  have rn: "?code = read_newlines ?code"
    by (rule read_newlines_id[symmetric]) simp
  have ch: "chunk_text ?code CHUNK_SIZE = Some ?chunks"
    using chunk_text_two[of CHUNK_SIZE ?code] by (simp add: CHUNK_SIZE_def)
  have many: "1 < length ?chunks" by simp
  have cx: "file_context ?env ?code ?chunks (after_read (py ''a.cs'') ?st) = (ctx, st0)"
    by (simp add: file_context_def ctx_def st0_def)
  have s1: "py_strip (py ''compatible'') = py ''compatible''"
    by (simp add: py_strip_def py_def is_space_def)
  have s2: "py_strip (py ''compatible'' @ nl) = py ''compatible''"
    by (simp add: py_strip_def py_def nl_def is_space_def)
  have w0: "world st0 = 0" by (simp add: st0_def emit_def disk_def)
  have c0: "api ?env (world st0) (chat_request (replicate 200000 120) ctx)
              = (Content (py ''compatible''), 1)"
    unfolding w0 by (simp add: scripted_env_def)
  have w1: "world (snd (upgrade_chunks ?env ctx [replicate 200000 120] [] st0)) = 1"
    by (simp add: upgrade_step_def upgrade_code_chunk_content[OF c0])
  have c1: "api ?env (world (snd (upgrade_chunks ?env ctx [replicate 200000 120] [] st0)))
              (chat_request [121] ctx) = (Content (py ''compatible'' @ nl), 2)"
    unfolding w1 by (simp add: scripted_env_def)
  have marker: "\<forall>i<length ?chunks. \<exists>r w.
           api ?env (world (snd (upgrade_chunks ?env ctx (take i ?chunks) [] st0)))
             (chat_request (?chunks ! i) ctx) = (Content r, w)
           \<and> py_strip r = py ''compatible''"
  proof (intro allI impI)
    fix i assume "i < length ?chunks"
    then consider "i = 0" | "i = 1" by fastforce
    then show "\<exists>r w.
           api ?env (world (snd (upgrade_chunks ?env ctx (take i ?chunks) [] st0)))
             (chat_request (?chunks ! i) ctx) = (Content r, w)
           \<and> py_strip r = py ''compatible''"
    proof cases
      case 1
      then show ?thesis using c0 s1 by simp
    next
      case 2
      then show ?thesis using c1 s2 by simp
    qed
  qed
  have wr: "write_outcome ?env (py ''a.cs'') (py_join nl ?chunks) = None"
    and ls: "linesep ?env = nl"
    by (simp_all add: scripted_env_def)
  note t = all_compatible_inserts_newlines[OF fl rn ch many cx marker]
  from t have tr: "\<exists>result st'. process_file ?env (py ''a.cs'') ?st = Some (result, st')
       \<and> writes (events st') = writes (events ?st) @ [(py ''a.cs'', py_join nl ?chunks)]"
    by (elim conjE)
  note ok = t[THEN conjunct2, THEN conjunct2, THEN conjunct2, THEN conjunct2, THEN conjunct2,
      THEN mp, OF wr]
  from ok obtain st4 where
    p: "process_file ?env (py ''a.cs'') ?st = Some (Inr (), st4)"
    and f: "files st4 (py ''a.cs'') = Some (write_newlines (linesep ?env) (py_join nl ?chunks))"
    by (elim exE conjE)
  have pj: "py_join nl ?chunks = replicate 200000 120 @ nl @ [121]" by simp
  from tr p have w: "writes (events st4) = [(py ''a.cs'', replicate 200000 120 @ nl @ [121])]"
    unfolding pj by (auto simp: disk_def)
  from f have f': "files st4 (py ''a.cs'') = Some (replicate 200000 120 @ nl @ [121])"
    unfolding pj by (simp add: ls write_newlines_nl)
  have b: "length (replicate 200000 120 @ nl @ [121 :: nat]) = 200002"
    by (simp add: nl_def)
  have c: "replicate 200000 120 @ nl @ [121] \<noteq> replicate 200000 120 @ [121 :: nat]"
    by (simp add: nl_def)
  from p f' w have a: "\<exists>st4. process_file ?env (py ''a.cs'') ?st = Some (Inr (), st4)
         \<and> files st4 (py ''a.cs'') = Some (replicate 200000 120 @ nl @ [121])
         \<and> writes (events st4) = [(py ''a.cs'', replicate 200000 120 @ nl @ [121])]"
    by (intro exI[of _ st4] conjI)
  from a b c show ?thesis by (intro conjI)
qed

text \<open>
  C9.  When no file is discovered, \<open>main\<close> returns, and all it does to the world is one
  log record of level \<open>WARNING\<close>: no file is read or written, no task is submitted, no
  request is sent, and the files and the endpoint are as they were.
\<close>

theorem main_no_files:
  assumes "get_csharp_files env ROOT_PATH = []"
  shows "main env st =
           Some (st\<lparr>events := events st
                      @ [Log WARNING (py ''No .cs files found in the specified directory.'')]\<rparr>)"
  using assms by (simp add: main_def emit_def)

theorem main_no_files_witness:
  "get_csharp_files
      (scripted_env []\<lparr>walk := \<lambda>p. [(p, [py ''docs''], [py ''readme.md'', py ''a.cs.bak''])]\<rparr>)
      ROOT_PATH = []
   \<and> main (scripted_env []\<lparr>walk := \<lambda>p. [(p, [py ''docs''], [py ''readme.md'', py ''a.cs.bak''])]\<rparr>)
        (disk (py ''readme.md'') (py ''hello''))
     = Some \<lparr>files = [py ''readme.md'' \<mapsto> py ''hello''],
             events = [Log WARNING (py ''No .cs files found in the specified directory.'')],
             world = 0\<rparr>"
proof -
  let ?env = "scripted_env []\<lparr>walk := \<lambda>p. [(p, [py ''docs''], [py ''readme.md'', py ''a.cs.bak''])]\<rparr>"
  have none: "get_csharp_files ?env ROOT_PATH = []"
    by (simp add: get_csharp_files_def scripted_env_def endswith_def py_def)
  from main_no_files[OF none, of "disk (py ''readme.md'') (py ''hello'')"] none
  show ?thesis by (simp add: disk_def)
qed
text \<open>
  C10.  The request that \<open>upgrade_code_chunk\<close> sends carries the user prompt as its second
  message.  For a non-empty context the prompt holds the context twice: once after the
  line \<open>Chunk context (from entire file):\<close>, and once more inside the code fence, in
  front of the chunk and separated from it by a blank line.  For the empty context the
  code fence holds the chunk alone.
\<close>

theorem user_prompt_sections:
  "(\<exists>rest. events (snd (upgrade_code_chunk env code_chunk chunk_context st)) =
            events st @ Call (chat_request code_chunk chunk_context) # rest)
   \<and> messages (chat_request code_chunk chunk_context) =
         [(py ''system'', SYSTEM_PROMPT), (py ''user'', user_prompt code_chunk chunk_context)]
   \<and> (chunk_context \<noteq> [] \<longrightarrow>
        user_prompt code_chunk chunk_context =
          py ''Please upgrade the following .NET 4.8 C# code to .NET 8.'' @ nl
          @ py ''If it is already compatible, return '' @ [39] @ py ''compatible'' @ [39] @ py ''.'' @ nl
          @ nl
          @ py ''Chunk context (from entire file):'' @ nl
          @ chunk_context @ nl
          @ nl
          @ py ''Code:'' @ nl
          @ [96, 96, 96] @ py ''csharp'' @ nl
          @ chunk_context @ nl @ nl @ code_chunk @ nl
          @ [96, 96, 96] @ nl)
   \<and> (chunk_context = [] \<longrightarrow>
        user_prompt code_chunk chunk_context =
          py ''Please upgrade the following .NET 4.8 C# code to .NET 8.'' @ nl
          @ py ''If it is already compatible, return '' @ [39] @ py ''compatible'' @ [39] @ py ''.'' @ nl
          @ nl
          @ py ''Chunk context (from entire file):'' @ nl
          @ nl
          @ nl
          @ py ''Code:'' @ nl
          @ [96, 96, 96] @ py ''csharp'' @ nl
          @ code_chunk @ nl
          @ [96, 96, 96] @ nl)"
proof -
  have ev: "\<exists>rest. events (snd (upgrade_code_chunk env code_chunk chunk_context st)) =
            events st @ Call (chat_request code_chunk chunk_context) # rest"
    by (cases "api env (world st) (chat_request code_chunk chunk_context)";
        cases "fst (api env (world st) (chat_request code_chunk chunk_context))")
       (simp_all add: upgrade_code_chunk_def Let_def emit_def)
  have msg: "messages (chat_request code_chunk chunk_context) =
         [(py ''system'', SYSTEM_PROMPT), (py ''user'', user_prompt code_chunk chunk_context)]"
    by (simp add: chat_request_def)
  show ?thesis
    using ev msg by (simp add: user_prompt_def USER_PROMPT_TEMPLATE_def Let_def)
qed


theorem user_prompt_sections_witness:
  "user_prompt (py ''int x;'') (py ''using A;'') =
     py ''Please upgrade the following .NET 4.8 C# code to .NET 8.'' @ nl
     @ py ''If it is already compatible, return '' @ [39] @ py ''compatible'' @ [39] @ py ''.'' @ nl
     @ nl
     @ py ''Chunk context (from entire file):'' @ nl
     @ py ''using A;'' @ nl
     @ nl
     @ py ''Code:'' @ nl
     @ [96, 96, 96] @ py ''csharp'' @ nl
     @ py ''using A;'' @ nl
     @ nl
     @ py ''int x;'' @ nl
     @ [96, 96, 96] @ nl
   \<and> user_prompt (py ''int x;'') [] =
     py ''Please upgrade the following .NET 4.8 C# code to .NET 8.'' @ nl
     @ py ''If it is already compatible, return '' @ [39] @ py ''compatible'' @ [39] @ py ''.'' @ nl
     @ nl
     @ py ''Chunk context (from entire file):'' @ nl
     @ nl
     @ nl
     @ py ''Code:'' @ nl
     @ [96, 96, 96] @ py ''csharp'' @ nl
     @ py ''int x;'' @ nl
     @ [96, 96, 96] @ nl"
proof -
  have ne: "py ''using A;'' \<noteq> []" by (simp add: py_def)
  from user_prompt_sections[of "scripted_env []" "py ''int x;''" "py ''using A;''"
         "disk (py ''a.cs'') (py ''int x;'')"] ne
  have a: "user_prompt (py ''int x;'') (py ''using A;'') =
     py ''Please upgrade the following .NET 4.8 C# code to .NET 8.'' @ nl
     @ py ''If it is already compatible, return '' @ [39] @ py ''compatible'' @ [39] @ py ''.'' @ nl
     @ nl
     @ py ''Chunk context (from entire file):'' @ nl
     @ py ''using A;'' @ nl
     @ nl
     @ py ''Code:'' @ nl
     @ [96, 96, 96] @ py ''csharp'' @ nl
     @ py ''using A;'' @ nl
     @ nl
     @ py ''int x;'' @ nl
     @ [96, 96, 96] @ nl"
    by blast
  from user_prompt_sections[of "scripted_env []" "py ''int x;''" "[]"
         "disk (py ''a.cs'') (py ''int x;'')"]
  have b: "user_prompt (py ''int x;'') [] =
     py ''Please upgrade the following .NET 4.8 C# code to .NET 8.'' @ nl
     @ py ''If it is already compatible, return '' @ [39] @ py ''compatible'' @ [39] @ py ''.'' @ nl
     @ nl
     @ py ''Chunk context (from entire file):'' @ nl
     @ nl
     @ nl
     @ py ''Code:'' @ nl
     @ [96, 96, 96] @ py ''csharp'' @ nl
     @ py ''int x;'' @ nl
     @ [96, 96, 96] @ nl"
    by blast
  from a b show ?thesis by (rule conjI)
qed

end
